theory Spec2Isabelle
  imports Main "HOL-Library.AList"
begin

section \<open>Python string and path primitives used by the scripts\<close>

text \<open>
  The scripts are Python; strings are modelled as \<open>string\<close>. The functions of this
  section are the library calls the two scripts make on strings and paths, with the
  POSIX flavour of \<open>os.path\<close> (separator \<open>/\<close>, extension separator \<open>.\<close>).
\<close>

text \<open>\<open>s.startswith(p)\<close>.\<close>

definition startswith :: "string \<Rightarrow> string \<Rightarrow> bool" where
  "startswith s p = (take (length p) s = p)"

text \<open>\<open>sub in s\<close> on strings: \<open>sub\<close> occurs in \<open>s\<close> as a contiguous substring.\<close>

fun py_in :: "string \<Rightarrow> string \<Rightarrow> bool" where
  "py_in sub [] = (sub = [])"
| "py_in sub (c # cs) = (startswith (c # cs) sub \<or> py_in sub cs)"

text \<open>\<open>s.split(sep)\<close> for a one-character separator: never the empty list, empty
  fields are kept.\<close>

fun split_on :: "char \<Rightarrow> string \<Rightarrow> string list" where
  "split_on sep [] = [[]]"
| "split_on sep (c # cs) =
     (if c = sep then [] # split_on sep cs
      else (case split_on sep cs of
              [] \<Rightarrow> [[c]]
            | t # ts \<Rightarrow> (c # t) # ts))"

text \<open>\<open>s.rfind(c)\<close>: the index of the last occurrence, \<open>-1\<close> when there is none.\<close>

definition rfind :: "char \<Rightarrow> string \<Rightarrow> int" where
  "rfind c s =
     (if c \<in> set s
      then int (length s) - 1 - int (length (takeWhile (\<lambda>x. x \<noteq> c) (rev s)))
      else - 1)"

text \<open>\<open>os.path.basename(p)\<close>: what follows the last separator.\<close>

definition path_basename :: "string \<Rightarrow> string" where
  "path_basename p = drop (nat (rfind (CHR ''/'') p + 1)) p"

text \<open>\<open>os.path.dirname(p)\<close>: what precedes the last separator, without trailing
  separators unless it consists of separators only.\<close>

definition path_dirname :: "string \<Rightarrow> string" where
  "path_dirname p =
     (let head = take (nat (rfind (CHR ''/'') p + 1)) p
      in if head \<noteq> [] \<and> list_ex (\<lambda>c. c \<noteq> CHR ''/'') head
         then rev (dropWhile (\<lambda>c. c = CHR ''/'') (rev head))
         else head)"

text \<open>\<open>os.path.splitext(p)\<close>: the extension starts at the last dot, when that dot
  comes after the last separator and some character between the two is not a dot.\<close>

definition path_splitext :: "string \<Rightarrow> string \<times> string" where
  "path_splitext p =
     (let sepIndex = rfind (CHR ''/'') p;
          dotIndex = rfind (CHR ''.'') p
      in if dotIndex > sepIndex \<and>
            list_ex (\<lambda>c. c \<noteq> CHR ''.'')
              (take (nat (dotIndex - (sepIndex + 1))) (drop (nat (sepIndex + 1)) p))
         then (take (nat dotIndex) p, drop (nat dotIndex) p)
         else (p, []))"

text \<open>\<open>os.path.join(a, b)\<close> with two arguments.\<close>

definition path_join :: "string \<Rightarrow> string \<Rightarrow> string" where
  "path_join a b =
     (if startswith b ''/'' then b
      else if a = [] \<or> last a = CHR ''/'' then a @ b
      else a @ ''/'' @ b)"

text \<open>\<open>str(n)\<close> for integers, and for a field that is an integer or \<open>None\<close>.\<close>

definition digit_char :: "nat \<Rightarrow> char" where
  "digit_char d = ''0123456789'' ! d"

function str_nat :: "nat \<Rightarrow> string" where
  "str_nat n = (if n < 10 then [digit_char n] else str_nat (n div 10) @ [digit_char (n mod 10)])"
  by pat_completeness auto
termination
  by (relation "measure id") auto

declare str_nat.simps [simp del]

definition str_int :: "int \<Rightarrow> string" where
  "str_int i = (if i < 0 then CHR ''-'' # str_nat (nat (- i)) else str_nat (nat i))"

definition str_opt_int :: "int option \<Rightarrow> string" where
  "str_opt_int v = (case v of None \<Rightarrow> ''None'' | Some i \<Rightarrow> str_int i)"

section \<open>Create\_COG.py: the projection table and the converter object\<close>

text \<open>Exceptions of the Python run time and of the raster library, as values.\<close>

datatype py_error =
    KeyError string
  | NameError string
  | FileNotFoundError string
  | NotADirectoryError string
  | FileExistsError string
  | IsADirectoryError string
  | LibraryError string

text \<open>The dictionary returned by \<open>PROJECTIONS()\<close>, in the order it is written.\<close>

definition PROJECTIONS :: "(string \<times> int) list" where
  "PROJECTIONS =
     [(''utm08'', 3155), (''utm8'', 3155), (''utm09'', 3156), (''utm9'', 3156),
      (''utm10'', 3157), (''utm11'', 2955), (''bcalb'', 3005)]"

text \<open>The attributes of a \<open>CloudOptimizedGeotiff\<close> object.\<close>

record cog =
  predictor :: int
  epsg :: "int option"
  compress_method :: string
  compress_level :: int
  overview_levels :: "int list"
  resampling :: string
  blockxsize :: int
  blockysize :: int

text \<open>\<open>__init__\<close>: the creation option values. (The two calls that configure the
  library, \<open>SetConfigOption\<close> and \<open>UseExceptions\<close>, set no attribute; with
  \<open>UseExceptions\<close> every failure of the library is a Python exception.)\<close>

definition cog_init :: cog where
  "cog_init =
     \<lparr> predictor = 3, epsg = None, compress_method = ''DEFLATE'', compress_level = 6,
       overview_levels = [2, 4], resampling = ''cubic'', blockxsize = 512,
       blockysize = 512 \<rparr>"

text \<open>\<open>set_jpeg_quality\<close>: appends to the compression method.\<close>

definition set_jpeg_quality :: "cog \<Rightarrow> int \<Rightarrow> cog" where
  "set_jpeg_quality self jpeg_quality =
     self\<lparr>compress_method := compress_method self @ '' -co JPEG_QUALITY='' @ str_int jpeg_quality\<rparr>"

text \<open>\<open>create_translate_options\<close>: returns the options, here the command string they
  are parsed from, and the object as the call leaves it.\<close>

definition create_translate_options :: "cog \<Rightarrow> string \<times> cog" where
  "create_translate_options self =
     (let self1 = (if compress_method self = ''JPEG'' then set_jpeg_quality self 75 else self);
          trans_str =
            ''-of GTiff -a_srs EPSG:'' @ str_opt_int (epsg self1) @ '' '' @
            ''-co PREDICTOR='' @ str_int (predictor self1) @ '' -q '' @
            ''-co TILED=YES -co NUM_THREADS=ALL_CPUS '' @
            ''-co COMPRESS='' @ compress_method self1 @ '' '' @
            ''-co ZLEVEL='' @ str_int (compress_level self1)
      in (trans_str, self1))"

text \<open>The tokens \<open>epsg_from_filename\<close> iterates: the base name without its extension,
  split at underscores.\<close>

definition name_tokens :: "string \<Rightarrow> string list" where
  "name_tokens filename = split_on (CHR ''_'') (fst (path_splitext (path_basename filename)))"

text \<open>The test of the loop: \<open>'utm' in string or 'bcalb' in string\<close>.\<close>

definition mentions_projection :: "string \<Rightarrow> bool" where
  "mentions_projection t = (py_in ''utm'' t \<or> py_in ''bcalb'' t)"

text \<open>The loop of \<open>epsg_from_filename\<close>: the first token that passes the test is
  looked up in the dictionary, a missing key raises \<open>KeyError\<close>, and the loop ends
  there (\<open>break\<close>).\<close>

fun epsg_loop :: "cog \<Rightarrow> string list \<Rightarrow> py_error + cog" where
  "epsg_loop self [] = Inr self"
| "epsg_loop self (t # ts) =
     (if mentions_projection t
      then (case map_of PROJECTIONS t of
              None \<Rightarrow> Inl (KeyError t)
            | Some code \<Rightarrow> Inr (self\<lparr>epsg := Some code\<rparr>))
      else epsg_loop self ts)"

definition epsg_from_filename :: "cog \<Rightarrow> string \<Rightarrow> py_error + cog" where
  "epsg_from_filename self filename = epsg_loop self (name_tokens filename)"

section \<open>The environment: file system, working directory, observable calls\<close>

text \<open>
  The file system is an association list from canonical absolute paths (\<open>/\<close>,
  \<open>/out\<close>, \<open>/out/a.tif\<close>) to nodes, in directory order; the root is a directory. It
  has no links. A path a script passes to the operating system is resolved the way
  the kernel walks it: from the root, or from the working directory when the path is
  relative, one component at a time, each step from a node that must be a directory.
  The trace records the calls into the raster library and the writes the scripts make,
  in the order they happen.
\<close>

datatype node = File string | Dir

type_synonym fsys = "(string \<times> node) list"

datatype event =
    Translate_call string string string
  | Log_write string string string
  | Open_call string
  | BuildOverviews_call string string "int list"
  | Close_call string
  | Remove_call string
  | Print_report string
  | Print_unable string string
  | Csv_row string string string
  | Print_summary nat

record world =
  cwd :: string
  fs :: fsys
  trace :: "event list"

text \<open>A call either returns or raises; both leave a state behind.\<close>

datatype 'a outcome = Returned 'a | Raised py_error 'a

fun state_of :: "'a outcome \<Rightarrow> 'a" where
  "state_of (Returned s) = s"
| "state_of (Raised e s) = s"

text \<open>\<open>for x in xs: body\<close>: an exception that leaves the body leaves the loop.\<close>

fun for_each :: "('a \<Rightarrow> 's \<Rightarrow> 's outcome) \<Rightarrow> 'a list \<Rightarrow> 's \<Rightarrow> 's outcome" where
  "for_each body [] s = Returned s"
| "for_each body (x # xs) s =
     (case body x s of
        Returned s' \<Rightarrow> for_each body xs s'
      | Raised e s' \<Rightarrow> Raised e s')"

text \<open>The node at a canonical path, and the canonical path of a list of components.\<close>

definition node_at :: "fsys \<Rightarrow> string \<Rightarrow> node option" where
  "node_at f q = (if q = ''/'' then Some Dir else map_of f q)"

definition render :: "string list \<Rightarrow> string" where
  "render q = (if q = [] then ''/'' else concat (map (\<lambda>c. CHR ''/'' # c) q))"

text \<open>One step of the walk: an empty component (a doubled or trailing separator) and
  \<open>.\<close> stay, \<open>..\<close> goes to the parent (the root is its own parent), a name goes
  down.\<close>

definition step_dir :: "string list \<Rightarrow> string \<Rightarrow> string list" where
  "step_dir cur c =
     (if c = [] \<or> c = ''.'' then cur
      else if c = ''..'' then butlast cur
      else cur @ [c])"

datatype errno = ENOENT | ENOTDIR

text \<open>The walk over the components of a path. Every step starts at a directory; the
  node the last step arrives at need not exist.\<close>

fun walk :: "fsys \<Rightarrow> string list \<Rightarrow> string list \<Rightarrow> errno + string list" where
  "walk f cur [] = Inr cur"
| "walk f cur (c # cs) =
     (case node_at f (render cur) of
        None \<Rightarrow> Inl ENOENT
      | Some (File t) \<Rightarrow> Inl ENOTDIR
      | Some Dir \<Rightarrow> walk f (step_dir cur c) cs)"

definition os_error :: "errno \<Rightarrow> string \<Rightarrow> py_error" where
  "os_error k p = (case k of ENOENT \<Rightarrow> FileNotFoundError p | ENOTDIR \<Rightarrow> NotADirectoryError p)"

text \<open>The canonical path a path string names, or the error of the walk. The empty
  path names nothing; a relative path is walked from the working directory.\<close>

definition resolve :: "world \<Rightarrow> string \<Rightarrow> py_error + string" where
  "resolve w p =
     (if p = [] then Inl (FileNotFoundError p)
      else
        (case walk (fs w) []
                ((if startswith p ''/'' then [] else split_on (CHR ''/'') (cwd w)) @
                 split_on (CHR ''/'') p) of
           Inl k \<Rightarrow> Inl (os_error k p)
         | Inr q \<Rightarrow> Inr (render q)))"

definition lookup :: "world \<Rightarrow> string \<Rightarrow> node option" where
  "lookup w p = (case resolve w p of Inl e \<Rightarrow> None | Inr q \<Rightarrow> node_at (fs w) q)"

text \<open>\<open>os.path.exists\<close> (false on any error of the walk), \<open>os.chdir\<close>, \<open>os.mkdir\<close>,
  \<open>os.remove\<close>.\<close>

definition os_path_exists :: "world \<Rightarrow> string \<Rightarrow> bool" where
  "os_path_exists w p = (lookup w p \<noteq> None)"

definition os_chdir :: "world \<Rightarrow> string \<Rightarrow> py_error + world" where
  "os_chdir w p =
     (case resolve w p of
        Inl e \<Rightarrow> Inl e
      | Inr q \<Rightarrow>
          (case node_at (fs w) q of
             None \<Rightarrow> Inl (FileNotFoundError p)
           | Some (File c) \<Rightarrow> Inl (NotADirectoryError p)
           | Some Dir \<Rightarrow> Inr (w\<lparr>cwd := q\<rparr>)))"

definition os_mkdir :: "world \<Rightarrow> string \<Rightarrow> py_error + world" where
  "os_mkdir w p =
     (case resolve w p of
        Inl e \<Rightarrow> Inl e
      | Inr q \<Rightarrow>
          (case node_at (fs w) q of
             Some n \<Rightarrow> Inl (FileExistsError p)
           | None \<Rightarrow> Inr (w\<lparr>fs := AList.update q Dir (fs w)\<rparr>)))"

definition os_remove :: "world \<Rightarrow> string \<Rightarrow> py_error + world" where
  "os_remove w p =
     (case resolve w p of
        Inl e \<Rightarrow> Inl e
      | Inr q \<Rightarrow>
          (case node_at (fs w) q of
             None \<Rightarrow> Inl (FileNotFoundError p)
           | Some Dir \<Rightarrow> Inl (IsADirectoryError p)
           | Some (File c) \<Rightarrow>
               Inr (w\<lparr>fs := AList.delete q (fs w),
                      trace := trace w @ [Remove_call p]\<rparr>)))"

text \<open>The line an error handler writes: \<open>f'{file}\t{e}\n'\<close>.\<close>

definition log_line :: "string \<Rightarrow> string \<Rightarrow> string" where
  "log_line file e = file @ [CHR 0x09] @ e @ [CHR 0x0A]"

text \<open>\<open>with open(p, 'a+') as err_file: err_file.write(...)\<close>: the file is created when
  it is missing; a path that does not resolve, or that names a directory, raises.\<close>

definition append_log :: "world \<Rightarrow> string \<Rightarrow> string \<Rightarrow> string \<Rightarrow> py_error + world" where
  "append_log w p file e =
     (case resolve w p of
        Inl err \<Rightarrow> Inl err
      | Inr q \<Rightarrow>
          (case node_at (fs w) q of
             Some Dir \<Rightarrow> Inl (IsADirectoryError p)
           | Some (File c) \<Rightarrow>
               Inr (w\<lparr>fs := AList.update q (File (c @ log_line file e)) (fs w),
                      trace := trace w @ [Log_write p file e]\<rparr>)
           | None \<Rightarrow>
               Inr (w\<lparr>fs := AList.update q (File (log_line file e)) (fs w),
                      trace := trace w @ [Log_write p file e]\<rparr>)))"

text \<open>\<open>glob(os.path.join(dir, '*' + ext))\<close> for a directory without pattern characters.
  The pattern is split into the directory part and \<open>'*' + ext\<close>; the result holds the
  entries of that directory (of the working directory when the part is empty) whose
  names end with \<open>ext\<close> and do not start with a dot, each joined to the directory
  part; a directory that cannot be listed gives the empty list.\<close>

definition endswith :: "string \<Rightarrow> string \<Rightarrow> bool" where
  "endswith s e = (length e \<le> length s \<and> drop (length s - length e) s = e)"

definition glob_ext :: "world \<Rightarrow> string \<Rightarrow> string \<Rightarrow> string list" where
  "glob_ext w dir ext =
     (let dirname = path_dirname (path_join dir (''*'' @ ext)) in
      case resolve w (if dirname = [] then ''.'' else dirname) of
        Inl e \<Rightarrow> []
      | Inr d \<Rightarrow>
          (case node_at (fs w) d of
             Some Dir \<Rightarrow>
               map (\<lambda>k. path_join dirname (path_basename k))
                 (filter (\<lambda>k. path_basename k \<noteq> [] \<and>
                               path_join d (path_basename k) = k \<and>
                               endswith (path_basename k) ext \<and>
                               \<not> startswith (path_basename k) ''.'')
                    (map fst (fs w)))
           | Some (File c) \<Rightarrow> []
           | None \<Rightarrow> []))"

text \<open>
  The raster library is outside the repository: its three operations are parameters.
  Each sees the world it is called in; an operation that fails returns the text of
  its exception. \<open>Translate\<close> and \<open>BuildOverviews\<close> also return the file system as they
  leave it.
\<close>

record gdal =
  gdal_Translate :: "world \<Rightarrow> string \<Rightarrow> string \<Rightarrow> string \<Rightarrow> string option \<times> fsys"
  gdal_Open :: "world \<Rightarrow> string \<Rightarrow> string option"
  gdal_BuildOverviews :: "world \<Rightarrow> string \<Rightarrow> string \<Rightarrow> int list \<Rightarrow> string option \<times> fsys"

section \<open>Create\_COG.py: the four stages and the driver\<close>

text \<open>The derived output name: \<open>f'{os.path.splitext(os.path.basename(file))[0]}.tif'\<close>.\<close>

definition out_name_of :: "string \<Rightarrow> string" where
  "out_name_of file = fst (path_splitext (path_basename file)) @ ''.tif''"

text \<open>The body of the loop of \<open>batch_compress_and_tile\<close>. Only the call of
  \<open>gdal.Translate\<close> stands inside \<open>try\<close>.\<close>

definition compress_file :: "gdal \<Rightarrow> string \<Rightarrow> string \<Rightarrow> cog \<times> world \<Rightarrow> (cog \<times> world) outcome" where
  "compress_file g out_dir file st =
     (case st of (self, w) \<Rightarrow>
        let out_name = out_name_of file in
        if os_path_exists w out_name then Returned (self, w)
        else
          (case epsg_from_filename self file of
             Inl err \<Rightarrow> Raised err (self, w)
           | Inr self1 \<Rightarrow>
               (case create_translate_options self1 of (translate_options, self2) \<Rightarrow>
                  (case gdal_Translate g w out_name file translate_options of (res, fs1) \<Rightarrow>
                     let w1 = w\<lparr>fs := fs1,
                                trace := trace w @ [Translate_call out_name file translate_options]\<rparr>
                     in (case res of
                           None \<Rightarrow> Returned (self2, w1)
                         | Some e \<Rightarrow>
                             (case append_log w1
                                     (path_join out_dir ''compression_and_tiling_errors.txt'')
                                     file e of
                                Inl err \<Rightarrow> Raised err (self2, w1)
                              | Inr w2 \<Rightarrow> Returned (self2, w2)))))))"

definition batch_compress_and_tile ::
  "gdal \<Rightarrow> cog \<times> world \<Rightarrow> string list \<Rightarrow> string \<Rightarrow> (cog \<times> world) outcome" where
  "batch_compress_and_tile g st list_of_files out_dir =
     (case st of (self, w) \<Rightarrow>
        (case os_chdir w out_dir of
           Inl err \<Rightarrow> Raised err (self, w)
         | Inr w1 \<Rightarrow> for_each (compress_file g out_dir) list_of_files (self, w1)))"

text \<open>The body of the loop of \<open>batch_create_overviews\<close>: nothing is caught.\<close>

definition overview_file :: "gdal \<Rightarrow> string \<Rightarrow> cog \<times> world \<Rightarrow> (cog \<times> world) outcome" where
  "overview_file g f st =
     (case st of (self, w) \<Rightarrow>
        let w1 = w\<lparr>trace := trace w @ [Open_call f]\<rparr> in
        (case gdal_Open g w f of
           Some e \<Rightarrow> Raised (LibraryError e) (self, w1)
         | None \<Rightarrow>
             (case gdal_BuildOverviews g w1 f ''CUBIC'' (overview_levels self) of (res, fs1) \<Rightarrow>
                let w2 = w1\<lparr>fs := fs1,
                            trace := trace w1 @
                              [BuildOverviews_call f ''CUBIC'' (overview_levels self)]\<rparr>
                in (case res of
                      Some e \<Rightarrow> Raised (LibraryError e) (self, w2)
                    | None \<Rightarrow> Returned (self, w2\<lparr>trace := trace w2 @ [Close_call f]\<rparr>)))))"

definition batch_create_overviews ::
  "gdal \<Rightarrow> cog \<times> world \<Rightarrow> string list \<Rightarrow> (cog \<times> world) outcome" where
  "batch_create_overviews g st list_of_files = for_each (overview_file g) list_of_files st"

text \<open>The body of the loop of \<open>batch_create_cog\<close>.\<close>

definition cog_file ::
  "gdal \<Rightarrow> string \<Rightarrow> string \<Rightarrow> string \<Rightarrow> cog \<times> world \<Rightarrow> (cog \<times> world) outcome" where
  "cog_file g trans_opt out file st =
     (case st of (self, w) \<Rightarrow>
        let out_name = out_name_of file in
        if os_path_exists w out_name then Returned (self, w)
        else
          (case gdal_Translate g w out_name file trans_opt of (res, fs1) \<Rightarrow>
             let w1 = w\<lparr>fs := fs1, trace := trace w @ [Translate_call out_name file trans_opt]\<rparr>
             in (case res of
                   None \<Rightarrow> Returned (self, w1)
                 | Some e \<Rightarrow>
                     (case append_log w1 (path_join out ''COG_creation_errors.txt'') file e of
                        Inl err \<Rightarrow> Raised err (self, w1)
                      | Inr w2 \<Rightarrow> Returned (self, w2)))))"

definition cog_trans_str :: "cog \<Rightarrow> string" where
  "cog_trans_str self =
     ''-co TILED=YES '' @
     ''-co COPY_SRC_OVERVIEWS=YES '' @
     ''-co COMPRESS='' @ compress_method self @ '' '' @
     ''-co NUM_THREADS=ALL_CPUS '' @
     ''-co BLOCKXSIZE='' @ str_int (blockxsize self) @ '' '' @
     ''-co BLOCKYSIZE='' @ str_int (blockysize self)"

definition batch_create_cog ::
  "gdal \<Rightarrow> cog \<times> world \<Rightarrow> string list \<Rightarrow> string \<Rightarrow> (cog \<times> world) outcome" where
  "batch_create_cog g st list_of_files out_dir =
     (case st of (self, w) \<Rightarrow>
        let trans_opt = cog_trans_str self;
            out = path_join out_dir ''COG''
        in (case os_mkdir w out of
              Inl err \<Rightarrow> Raised err (self, w)
            | Inr w1 \<Rightarrow>
                (case os_chdir w1 out of
                   Inl err \<Rightarrow> Raised err (self, w1)
                 | Inr w2 \<Rightarrow> for_each (cog_file g trans_opt out) list_of_files (self, w2))))"

text \<open>\<open>remove_intermediate_tif\<close>: the list is globbed first, then each path removed.\<close>

definition remove_file :: "string \<Rightarrow> world \<Rightarrow> world outcome" where
  "remove_file f w = (case os_remove w f of Inl err \<Rightarrow> Raised err w | Inr w1 \<Rightarrow> Returned w1)"

definition remove_intermediate_tif :: "world \<Rightarrow> string \<Rightarrow> world outcome" where
  "remove_intermediate_tif w in_dir = for_each remove_file (glob_ext w in_dir ''.tif'') w"

text \<open>\<open>run_cog_conversion\<close>, from the two directories the dialogs return. The overview
  stage is called with \<open>odir\<close> itself: the loop of \<open>batch_create_overviews\<close> then
  iterates the characters of that string.\<close>

definition run_cog_conversion ::
  "gdal \<Rightarrow> cog \<times> world \<Rightarrow> string \<Rightarrow> string \<Rightarrow> (cog \<times> world) outcome" where
  "run_cog_conversion g st idir odir =
     (let flist = concat (map (glob_ext (snd st) idir) [''.asc'', ''.dem'', ''.tif'']) in
      case batch_compress_and_tile g st flist odir of
        Raised err st1 \<Rightarrow> Raised err st1
      | Returned st1 \<Rightarrow>
          (case batch_create_overviews g st1 (map (\<lambda>c. [c]) odir) of
             Raised err st2 \<Rightarrow> Raised err st2
           | Returned st2 \<Rightarrow>
               (case batch_create_cog g st2 (glob_ext (snd st2) odir ''.tif'') odir of
                  Raised err st3 \<Rightarrow> Raised err st3
                | Returned st3 \<Rightarrow>
                    (case remove_intermediate_tif (snd st3) odir of
                       Raised err w4 \<Rightarrow> Raised err (fst st3, w4)
                     | Returned w4 \<Rightarrow> Returned (fst st3, w4)))))"

section \<open>Check\_Corrupt\_Jpg.py\<close>

text \<open>The names the module binds at any time: its imports and the targets of its
  assignments, of the \<open>for\<close> and of the \<open>with\<close>. No statement binds \<open>e\<close>.\<close>

definition module_names :: "string list" where
  "module_names =
     [''gdal'', ''sys'', ''os'', ''glob2'', ''csv'', ''time'', ''start_time'', ''lst'',
      ''file'', ''jpg'', ''statinfo'', ''size'', ''cols'', ''rows'', ''x'', ''csvfile'', ''wr'']"

text \<open>The \<open>try\<close> body: open the raster, \<open>os.stat\<close> the file, print the report.\<close>

definition try_open_and_report :: "gdal \<Rightarrow> string \<Rightarrow> world \<Rightarrow> world outcome" where
  "try_open_and_report g file w =
     (let w1 = w\<lparr>trace := trace w @ [Open_call file]\<rparr> in
      case gdal_Open g w file of
        Some e \<Rightarrow> Raised (LibraryError e) w1
      | None \<Rightarrow>
          (case resolve w1 file of
             Inl err \<Rightarrow> Raised err w1
           | Inr q \<Rightarrow>
               (case node_at (fs w1) q of
                  None \<Rightarrow> Raised (FileNotFoundError file) w1
                | Some n \<Rightarrow>
                    Returned (w1\<lparr>trace := trace w1 @ [Print_report file, Close_call file]\<rparr>))))"

text \<open>The row \<open>csv.writer(csvfile, delimiter=',').writerow((file, e))\<close> writes, for
  fields that need no quoting.\<close>

definition csv_row :: "string \<Rightarrow> string \<Rightarrow> string" where
  "csv_row file e = file @ '','' @ e @ [CHR 0x0D, CHR 0x0A]"

text \<open>The body of the handler: two prints, then the row appended to
  \<open>image_errors.csv\<close> in the working directory.\<close>

definition log_corrupt :: "world \<Rightarrow> string \<Rightarrow> string \<Rightarrow> py_error + world" where
  "log_corrupt w file e =
     (let w1 = w\<lparr>trace := trace w @ [Print_unable file e]\<rparr> in
      case resolve w1 ''image_errors.csv'' of
        Inl err \<Rightarrow> Inl err
      | Inr q \<Rightarrow>
          (case node_at (fs w1) q of
             Some Dir \<Rightarrow> Inl (IsADirectoryError ''image_errors.csv'')
           | Some (File c) \<Rightarrow>
               Inr (w1\<lparr>fs := AList.update q (File (c @ csv_row file e)) (fs w1),
                       trace := trace w1 @ [Csv_row ''image_errors.csv'' file e]\<rparr>)
           | None \<Rightarrow>
               Inr (w1\<lparr>fs := AList.update q (File (csv_row file e)) (fs w1),
                       trace := trace w1 @ [Csv_row ''image_errors.csv'' file e]\<rparr>)))"

text \<open>\<open>except (RuntimeError, e):\<close> is matched by evaluating the tuple
  \<open>(RuntimeError, e)\<close>, so the name \<open>e\<close> is looked up first; the module binds no such
  name, and the lookup raises \<open>NameError\<close> in place of the exception being handled.
  The branch after a successful lookup is the handler as it is written, taken for a
  failure of the library (a \<open>RuntimeError\<close>) with the text of that failure for \<open>e\<close>.\<close>

definition eval_except_clause :: "py_error option" where
  "eval_except_clause = (if ''e'' \<in> set module_names then None else Some (NameError ''e''))"

definition scan_file :: "gdal \<Rightarrow> string \<Rightarrow> world \<Rightarrow> world outcome" where
  "scan_file g file w =
     (case try_open_and_report g file w of
        Returned w1 \<Rightarrow> Returned w1
      | Raised exc w1 \<Rightarrow>
          (case eval_except_clause of
             Some err \<Rightarrow> Raised err w1
           | None \<Rightarrow>
               (case exc of
                  LibraryError e \<Rightarrow>
                    (case log_corrupt w1 file e of
                       Inl err \<Rightarrow> Raised err w1
                     | Inr w2 \<Rightarrow> Returned w2)
                | _ \<Rightarrow> Raised exc w1)))"

text \<open>The module-level loop over the files \<open>glob2\<close> found, and the summary after it.\<close>

definition check_corrupt_jpg :: "gdal \<Rightarrow> string list \<Rightarrow> world \<Rightarrow> world outcome" where
  "check_corrupt_jpg g lst w =
     (case for_each (scan_file g) lst w of
        Raised err w1 \<Rightarrow> Raised err w1
      | Returned w1 \<Rightarrow> Returned (w1\<lparr>trace := trace w1 @ [Print_summary (length lst)]\<rparr>))"

section \<open>A stand-in library for concrete runs\<close>

text \<open>
  A library that rejects the sources of a given list and accepts every other call:
  a successful \<open>Translate\<close> writes its destination file, \<open>Open\<close> needs an existing file.
\<close>

definition stub_gdal :: "string list \<Rightarrow> gdal" where
  "stub_gdal rejected =
     \<lparr> gdal_Translate = (\<lambda>w dest src opts.
          if src \<in> set rejected then (Some ''not recognized as a supported file format'', fs w)
          else
            (case resolve w dest of
               Inl e \<Rightarrow> (Some ''cannot create the destination'', fs w)
             | Inr q \<Rightarrow> (None, AList.update q (File (''GTiff of '' @ src)) (fs w)))),
       gdal_Open = (\<lambda>w p.
          case lookup w p of
            Some (File c) \<Rightarrow>
              if p \<in> set rejected then Some ''not recognized as a supported file format''
              else None
          | Some Dir \<Rightarrow> Some ''not recognized as a supported file format''
          | None \<Rightarrow> Some ''No such file or directory''),
       gdal_BuildOverviews = (\<lambda>w p r levels. (None, fs w)) \<rparr>"

section \<open>Vocabulary of the properties\<close>

text \<open>An event involves a file when it is a translate call that reads it or writes
  its derived output name, or a log entry for it.\<close>

fun involves :: "string \<Rightarrow> event \<Rightarrow> bool" where
  "involves file (Translate_call dest src opts) = (src = file \<or> dest = out_name_of file)"
| "involves file (Log_write p f e) = (f = file)"
| "involves file ev = False"

fun is_translate :: "event \<Rightarrow> bool" where
  "is_translate (Translate_call dest src opts) = True"
| "is_translate ev = False"

text \<open>Whether a call returned.\<close>

fun returns :: "'a outcome \<Rightarrow> bool" where
  "returns (Returned s) = True"
| "returns (Raised e s) = False"


text \<open>A small world for concrete runs: an input directory with three rasters and an
  empty output directory.\<close>

definition demo_world :: world where
  "demo_world =
     \<lparr> cwd = ''/home'',
       fs = [(''/'', Dir), (''/home'', Dir), (''/in'', Dir), (''/out'', Dir),
             (''/in/a_utm10.dem'', File ''dem''), (''/in/b_bcalb.asc'', File ''asc''),
             (''/in/c_badtoken.tif'', File ''tif'')],
       trace = [] \<rparr>"

section \<open>The projection resolver\<close>

lemma epsg_loop_skip:
  "list_all (\<lambda>u. \<not> mentions_projection u) pre \<Longrightarrow> epsg_loop self (pre @ ts) = epsg_loop self ts"
  by (induction pre) simp_all

lemma table_mentions:
  "map_of PROJECTIONS t = Some c \<Longrightarrow> mentions_projection t"
  by (auto simp: PROJECTIONS_def mentions_projection_def startswith_def split: if_splits)

text \<open>
  C3, as the code has it. The loop looks up the first token that contains \<open>utm\<close> or
  \<open>bcalb\<close> as a substring. When that token is one of the seven spellings of the table,
  the spatial reference becomes its code (3155, 3155, 3156, 3156, 3157, 2955, 3005 for
  utm08, utm8, utm09, utm9, utm10, utm11, bcalb), whatever tokens follow it.
\<close>

theorem epsg_first_mention_wins:
  assumes "name_tokens filename = pre @ t # post"
    and "list_all (\<lambda>u. \<not> mentions_projection u) pre"
    and "(t, c) \<in> set [(''utm08'', 3155), (''utm8'', 3155), (''utm09'', 3156), (''utm9'', 3156),
      (''utm10'', 3157), (''utm11'', 2955), (''bcalb'', 3005)]"
  shows "epsg_from_filename self filename = Inr (self\<lparr>epsg := Some c\<rparr>)"
proof -
  from assms(3) have look: "map_of PROJECTIONS t = Some c"
    by (auto simp: PROJECTIONS_def)
  then have "mentions_projection t" by (rule table_mentions)
  with look have "epsg_loop self (t # post) = Inr (self\<lparr>epsg := Some c\<rparr>)" by simp
  with assms(1,2) show ?thesis
    by (simp add: epsg_from_filename_def epsg_loop_skip)
qed

text \<open>The theorem at a name with two recognised tokens: the left one decides.\<close>

theorem epsg_first_mention_wins_witness:
  "name_tokens ''/data/bc_092g025_utm10_utm11.dem'' = [''bc'', ''092g025''] @ ''utm10'' # [''utm11'']
   \<and> list_all (\<lambda>u. \<not> mentions_projection u) [''bc'', ''092g025'']
   \<and> epsg_from_filename cog_init ''/data/bc_092g025_utm10_utm11.dem'' = Inr (cog_init\<lparr>epsg := Some 3157\<rparr>)"
proof -
  have h1: "name_tokens ''/data/bc_092g025_utm10_utm11.dem'' = [''bc'', ''092g025''] @ ''utm10'' # [''utm11'']"
    by code_simp
  have h2: "list_all (\<lambda>u. \<not> mentions_projection u) [''bc'', ''092g025'']"
    by (simp add: mentions_projection_def startswith_def)
  have h3: "(''utm10'', 3157) \<in> set [(''utm08'', 3155), (''utm8'', 3155), (''utm09'', 3156), (''utm9'', 3156),
      (''utm10'', 3157), (''utm11'', 2955), (''bcalb'', (3005::int))]"
    by simp
  show ?thesis
    by (rule conjI [OF h1 conjI [OF h2 epsg_first_mention_wins [OF h1 h2 h3]]])
qed

text \<open>C3 as stated fails: the name below contains the recognised token \<open>utm10\<close>, but
  the token \<open>utm12\<close> to its left contains \<open>utm\<close>, is looked up and is no key.\<close>

theorem epsg_recognized_token_counterexample:
  "''utm10'' \<in> set (name_tokens ''/data/a_utm12_utm10.dem'')
   \<and> map_of PROJECTIONS ''utm10'' = Some 3157
   \<and> epsg_from_filename cog_init ''/data/a_utm12_utm10.dem'' = Inl (KeyError ''utm12'')"
  by code_simp

text \<open>
  C4, as the code has it. When no token of the name contains \<open>utm\<close> or \<open>bcalb\<close>, the
  resolver returns without an error and leaves the object, and so its spatial
  reference, as it was before the call.
\<close>

theorem epsg_no_mention_unchanged:
  "list_all (\<lambda>u. \<not> mentions_projection u) (name_tokens filename) \<Longrightarrow>
   epsg_from_filename self filename = Inr self"
  using epsg_loop_skip [of "name_tokens filename" self "[]"]
  by (simp add: epsg_from_filename_def)

theorem epsg_no_mention_unchanged_witness:
  "list_all (\<lambda>u. \<not> mentions_projection u) (name_tokens ''/data/c_badtoken.tif'')
   \<and> epsg_from_filename cog_init ''/data/c_badtoken.tif'' = Inr cog_init
   \<and> epsg cog_init = None"
proof -
  have h: "list_all (\<lambda>u. \<not> mentions_projection u) (name_tokens ''/data/c_badtoken.tif'')"
    by code_simp
  have n: "epsg cog_init = None" by (simp add: cog_init_def)
  show ?thesis
    by (rule conjI [OF h conjI [OF epsg_no_mention_unchanged [OF h] n]])
qed

text \<open>C4 as stated fails twice. No token of \<open>a_utm12\<close> is a key of the table, and the
  resolver raises \<open>KeyError\<close>; no token of \<open>c_badtoken\<close> is a key either, and on an
  object whose reference an earlier file has set, the reference stays that of the
  earlier file instead of being undefined.\<close>

theorem epsg_no_match_counterexample:
  "list_all (\<lambda>t. map_of PROJECTIONS t = None) (name_tokens ''/data/a_utm12.dem'')
   \<and> epsg_from_filename cog_init ''/data/a_utm12.dem'' = Inl (KeyError ''utm12'')
   \<and> list_all (\<lambda>t. map_of PROJECTIONS t = None) (name_tokens ''/data/c_badtoken.tif'')
   \<and> epsg_from_filename (cog_init\<lparr>epsg := Some 3157\<rparr>) ''/data/c_badtoken.tif''
       = Inr (cog_init\<lparr>epsg := Some 3157\<rparr>)"
  by code_simp

section \<open>The COG assembler and an existing COG directory\<close>

text \<open>
  C10. When the path \<open>COG\<close> under the output directory exists, \<open>os.mkdir\<close> raises
  \<open>FileExistsError\<close> and \<open>batch_create_cog\<close> ends there: the world, and with it the
  trace of library calls, is as before the call, so no file of the list is translated
  or tested for an existing output.
\<close>

theorem batch_create_cog_existing_dir:
  "os_path_exists w (path_join out_dir ''COG'') \<Longrightarrow>
   batch_create_cog g (self, w) list_of_files out_dir =
     Raised (FileExistsError (path_join out_dir ''COG'')) (self, w)"
  by (auto simp: batch_create_cog_def os_mkdir_def os_path_exists_def lookup_def Let_def
      split: sum.splits option.splits)

theorem batch_create_cog_existing_dir_witness:
  "os_path_exists (demo_world\<lparr>fs := fs demo_world @ [(''/out/COG'', Dir)]\<rparr>) (path_join ''/out'' ''COG'')
   \<and> batch_create_cog (stub_gdal []) (cog_init, demo_world\<lparr>fs := fs demo_world @ [(''/out/COG'', Dir)]\<rparr>)
        [''/out/a_utm10.tif''] ''/out''
      = Raised (FileExistsError (path_join ''/out'' ''COG''))
          (cog_init, demo_world\<lparr>fs := fs demo_world @ [(''/out/COG'', Dir)]\<rparr>)"
proof -
  have h: "os_path_exists (demo_world\<lparr>fs := fs demo_world @ [(''/out/COG'', Dir)]\<rparr>) (path_join ''/out'' ''COG'')"
    by code_simp
  show ?thesis
    by (rule conjI [OF h batch_create_cog_existing_dir [OF h]])
qed

section \<open>Loops, path components and the walk\<close>

lemma for_each_append:
  "for_each body (xs @ ys) s =
     (case for_each body xs s of
        Returned s' \<Rightarrow> for_each body ys s'
      | Raised e s' \<Rightarrow> Raised e s')"
  by (induction xs arbitrary: s) (simp_all split: outcome.splits)

lemma for_each_invariant:
  assumes "I s" and "\<And>x s. x \<in> set xs \<Longrightarrow> I s \<Longrightarrow> I (state_of (body x s))"
  shows "I (state_of (for_each body xs s))"
  using assms
proof (induction xs arbitrary: s)
  case Nil
  then show ?case by simp
next
  case (Cons x xs)
  have step: "I (state_of (body x s))" using Cons.prems by simp
  show ?case
  proof (cases "body x s")
    case (Returned s')
    with step have "I s'" by simp
    then have "I (state_of (for_each body xs s'))"
      using Cons.prems(2) by (intro Cons.IH) simp_all
    with Returned show ?thesis by simp
  next
    case (Raised e s')
    with step show ?thesis by simp
  qed
qed

lemma split_on_nonempty: "split_on sep s \<noteq> []"
  by (induction s) (auto split: list.splits)

lemma split_plain: "sep \<notin> set l \<Longrightarrow> split_on sep l = [l]"
  by (induction l) auto

lemma split_on_append: "split_on sep (a @ sep # b) = split_on sep a @ split_on sep b"
proof (induction a)
  case Nil
  then show ?case by simp
next
  case (Cons c a)
  obtain t ts where "split_on sep a = t # ts"
    using split_on_nonempty [of sep a] by (cases "split_on sep a") auto
  with Cons show ?case by simp
qed

lemma join_components:
  assumes "CHR ''/'' \<notin> set l"
  shows "\<exists>pre. split_on (CHR ''/'') (path_join d l) = pre @ [l]"
proof -
  have ns: "\<not> startswith l ''/''"
    using assms by (cases l) (auto simp: startswith_def)
  show ?thesis
  proof (cases "d = []")
    case True
    with ns assms show ?thesis by (simp add: path_join_def split_plain)
  next
    case False
    show ?thesis
    proof (cases "last d = CHR ''/''")
      case True
      with False have "d = butlast d @ [CHR ''/'']"
        by (metis append_butlast_last_id)
      then have "path_join d l = butlast d @ CHR ''/'' # l"
        using ns True False by (simp add: path_join_def)
      then show ?thesis
        using assms by (simp add: split_on_append split_plain)
    next
      case neq: False
      with False ns have "path_join d l = d @ CHR ''/'' # l"
        by (simp add: path_join_def)
      then show ?thesis
        using assms by (simp add: split_on_append split_plain)
    qed
  qed
qed

lemma walk_append:
  "walk f cur (xs @ ys) = (case walk f cur xs of Inl k \<Rightarrow> Inl k | Inr q \<Rightarrow> walk f q ys)"
  by (induction xs arbitrary: cur) (auto split: option.splits node.splits)

lemma walk_mono:
  assumes "\<And>x. node_at f x = Some Dir \<Longrightarrow> node_at f' x = Some Dir"
    and "walk f cur cs = Inr q"
  shows "walk f' cur cs = Inr q"
  using assms(2)
proof (induction cs arbitrary: cur)
  case Nil
  then show ?case by simp
next
  case (Cons c cs)
  from Cons.prems have d: "node_at f (render cur) = Some Dir"
    and r: "walk f (step_dir cur c) cs = Inr q"
    by (auto split: option.splits node.splits)
  from assms(1) [OF d] Cons.IH [OF r] show ?case by simp
qed

lemma walk_snoc:
  assumes "walk f cur (pre @ [c]) = Inr q"
  shows "\<exists>q0. walk f cur pre = Inr q0 \<and> node_at f (render q0) = Some Dir \<and> q = step_dir q0 c"
  using assms by (auto simp: walk_append split: sum.splits option.splits node.splits)

lemma render_snoc: "render (q @ [c]) = (if q = [] then [] else render q) @ CHR ''/'' # c"
  by (simp add: render_def)

lemma last_render_snoc: "c \<noteq> [] \<Longrightarrow> last (render (q @ [c])) = last c"
  by (simp add: render_snoc)

lemma render_snoc_inj: "render (q @ [c]) = render (q @ [c']) \<Longrightarrow> c = c'"
  by (simp add: render_snoc)

lemma render_snoc_not_root: "c \<noteq> [] \<Longrightarrow> render (q @ [c]) \<noteq> ''/''"
  by (cases q) (auto simp: render_def)

section \<open>Resolved paths and derived names\<close>

lemma step_dir_name: "c \<noteq> [] \<Longrightarrow> c \<noteq> ''.'' \<Longrightarrow> c \<noteq> ''..'' \<Longrightarrow> step_dir q c = q @ [c]"
  by (simp add: step_dir_def)

lemma resolve_last_component:
  assumes "split_on (CHR ''/'') p = pre @ [c]" and "c \<noteq> []" and "c \<noteq> ''.''" and "c \<noteq> ''..''"
    and "resolve w p = Inr P"
  shows "\<exists>q0. P = render (q0 @ [c])"
proof -
  let ?x = "(if startswith p ''/'' then [] else split_on (CHR ''/'') (cwd w))"
  from assms(5) obtain q where w: "walk (fs w) [] (?x @ split_on (CHR ''/'') p) = Inr q"
    and P: "P = render q"
    by (auto simp: resolve_def split: if_splits sum.splits)
  from w assms(1) have "walk (fs w) [] ((?x @ pre) @ [c]) = Inr q" by simp
  from walk_snoc [OF this] obtain q0 where "q = step_dir q0 c" by blast
  with assms(2-4) P show ?thesis by (auto simp: step_dir_name)
qed

lemma resolve_name:
  assumes "CHR ''/'' \<notin> set n" and "n \<noteq> []" and "n \<noteq> ''.''" and "n \<noteq> ''..''"
  shows "(resolve w n = Inr P) =
         (\<exists>q0. walk (fs w) [] (split_on (CHR ''/'') (cwd w)) = Inr q0 \<and>
               node_at (fs w) (render q0) = Some Dir \<and> P = render (q0 @ [n]))"
proof -
  have ns: "\<not> startswith n ''/''"
    using assms(1) by (cases n) (auto simp: startswith_def)
  show ?thesis
    using assms ns
    by (auto simp: resolve_def split_plain walk_append step_dir_name
        split: sum.splits option.splits node.splits)
qed

lemma resolve_mono:
  assumes "cwd w' = cwd w"
    and "\<And>x. node_at (fs w) x = Some Dir \<Longrightarrow> node_at (fs w') x = Some Dir"
    and "resolve w p = Inr P"
  shows "resolve w' p = Inr P"
proof -
  let ?cs = "(if startswith p ''/'' then [] else split_on (CHR ''/'') (cwd w)) @ split_on (CHR ''/'') p"
  from assms(3) obtain q where w: "walk (fs w) [] ?cs = Inr q" and P: "P = render q" and p: "p \<noteq> []"
    by (auto simp: resolve_def split: if_splits sum.splits)
  from walk_mono [of "fs w" "fs w'", OF assms(2) w] have "walk (fs w') [] ?cs = Inr q" .
  with P p assms(1) show ?thesis by (auto simp: resolve_def)
qed

lemma lookup_transfer:
  assumes "cwd w' = cwd w"
    and "\<And>x. node_at (fs w) x = Some Dir \<Longrightarrow> node_at (fs w') x = Some Dir"
    and "resolve w p = Inr P"
    and "node_at (fs w') P = node_at (fs w) P"
  shows "lookup w' p = lookup w p"
  using resolve_mono [OF assms(1-3)] assms(3,4) by (simp add: lookup_def)

lemma lookup_both_ways:
  assumes c: "cwd w' = cwd w"
    and dirs: "\<And>x. (node_at (fs w') x = Some Dir) = (node_at (fs w) x = Some Dir)"
    and tgt: "\<And>P. resolve w p = Inr P \<Longrightarrow> node_at (fs w') P = node_at (fs w) P"
  shows "lookup w' p = lookup w p"
proof (cases "resolve w p")
  case (Inr P)
  show ?thesis
    by (rule lookup_transfer [OF c _ Inr tgt [OF Inr]]) (simp add: dirs)
next
  case (Inl e)
  have "resolve w' p \<noteq> Inr P" for P
  proof
    assume "resolve w' p = Inr P"
    from resolve_mono [of w w', OF c [symmetric] _ this] dirs have "resolve w p = Inr P" by simp
    with Inl show False by simp
  qed
  then obtain e' where "resolve w' p = Inl e'" by (cases "resolve w' p") auto
  with Inl show ?thesis by (simp add: lookup_def)
qed

lemma out_name_no_sep_aux: "CHR ''/'' \<notin> set (path_basename p)"
proof -
  have "path_basename p = rev (takeWhile (\<lambda>x. x \<noteq> CHR ''/'') (rev p))"
  proof (cases "CHR ''/'' \<in> set p")
    case False
    then have tw: "takeWhile (\<lambda>x. x \<noteq> CHR ''/'') (rev p) = rev p"
      by (auto simp: takeWhile_eq_all_conv)
    show ?thesis by (simp add: path_basename_def rfind_def False tw)
  next
    case True
    let ?k = "length (takeWhile (\<lambda>x. x \<noteq> CHR ''/'') (rev p))"
    have k: "?k \<le> length p" using length_takeWhile_le [of _ "rev p"] by simp
    have "path_basename p = drop (length p - ?k) p"
      using True k by (simp add: path_basename_def rfind_def nat_diff_distrib' of_nat_diff)
    also have "\<dots> = rev (take ?k (rev p))"
      by (simp add: rev_take)
    also have "take ?k (rev p) = takeWhile (\<lambda>x. x \<noteq> CHR ''/'') (rev p)"
      by (rule takeWhile_eq_take [symmetric])
    finally show ?thesis .
  qed
  then show ?thesis
    using set_takeWhileD [of "CHR ''/''" "\<lambda>x. x \<noteq> CHR ''/''" "rev p"] by auto
qed

lemma splitext_root_prefix: "\<exists>k. fst (path_splitext p) = take k p"
  by (auto simp: path_splitext_def Let_def intro: exI [of _ "length p"])

lemma out_name_no_sep: "CHR ''/'' \<notin> set (out_name_of f)"
proof -
  obtain k where "fst (path_splitext (path_basename f)) = take k (path_basename f)"
    using splitext_root_prefix by blast
  then have "set (fst (path_splitext (path_basename f))) \<subseteq> set (path_basename f)"
    by (simp add: set_take_subset)
  with out_name_no_sep_aux [of f] show ?thesis
    by (auto simp: out_name_of_def)
qed

lemma out_name_plain: "out_name_of f \<noteq> []" "out_name_of f \<noteq> ''.''" "out_name_of f \<noteq> ''..''"
proof -
  have "4 \<le> length (out_name_of f)" by (simp add: out_name_of_def)
  then show "out_name_of f \<noteq> []" "out_name_of f \<noteq> ''.''" "out_name_of f \<noteq> ''..''"
    by auto
qed

lemma last_out_name: "last (out_name_of f) = CHR ''f''"
  by (simp add: out_name_of_def)

lemmas resolve_out_name = resolve_name [OF out_name_no_sep out_name_plain]

text \<open>Two names resolved in one world: both resolve or neither does, and distinct names
  give distinct paths.\<close>

lemma out_paths_distinct:
  assumes "resolve w (out_name_of f) = Inr P" and "out_name_of f' \<noteq> out_name_of f"
  shows "\<exists>P'. resolve w (out_name_of f') = Inr P' \<and> P' \<noteq> P"
proof -
  from assms(1) obtain q0 where
    q: "walk (fs w) [] (split_on (CHR ''/'') (cwd w)) = Inr q0" "node_at (fs w) (render q0) = Some Dir"
    and P: "P = render (q0 @ [out_name_of f])"
    by (auto simp: resolve_out_name)
  from q have "resolve w (out_name_of f') = Inr (render (q0 @ [out_name_of f']))"
    by (auto simp: resolve_out_name)
  moreover have "render (q0 @ [out_name_of f']) \<noteq> P"
    using assms(2) P render_snoc_inj by blast
  ultimately show ?thesis by blast
qed

lemma out_path_last:
  assumes "resolve w (out_name_of f) = Inr P"
  shows "last P = CHR ''f''"
proof -
  from assms obtain q0 where "P = render (q0 @ [out_name_of f])"
    by (auto simp: resolve_out_name)
  then show ?thesis
    by (simp add: last_render_snoc out_name_plain last_out_name)
qed

lemma log_path_last:
  assumes "CHR ''/'' \<notin> set l" and "last l = CHR ''t''" and "l \<noteq> []"
    and "resolve w (path_join d l) = Inr L"
  shows "last L = CHR ''t''"
proof -
  obtain pre where "split_on (CHR ''/'') (path_join d l) = pre @ [l]"
    using join_components [OF assms(1)] by blast
  moreover have "l \<noteq> ''.''" "l \<noteq> ''..''" using assms(2) by auto
  ultimately obtain q0 where "L = render (q0 @ [l])"
    using resolve_last_component assms(3,4) by blast
  then show ?thesis
    using assms(2,3) by (simp add: last_render_snoc)
qed

section \<open>One pass of the converter's loop\<close>

lemma append_log_effect:
  assumes "append_log w lp f e = Inr w2"
  shows "cwd w2 = cwd w \<and> trace w2 = trace w @ [Log_write lp f e] \<and>
         (\<exists>L. resolve w lp = Inr L \<and> node_at (fs w) L \<noteq> Some Dir \<and>
              node_at (fs w2) L \<noteq> Some Dir \<and>
              (\<forall>x. x \<noteq> L \<longrightarrow> map_of (fs w2) x = map_of (fs w) x))"
proof -
  from assms obtain L where r: "resolve w lp = Inr L"
    by (cases "resolve w lp") (simp_all add: append_log_def)
  from assms r have nd: "node_at (fs w) L \<noteq> Some Dir"
    by (auto simp: append_log_def)
  then have root: "L \<noteq> ''/''" by (auto simp: node_at_def)
  from assms r nd root have
    "cwd w2 = cwd w \<and> trace w2 = trace w @ [Log_write lp f e] \<and>
     node_at (fs w2) L \<noteq> Some Dir \<and> (\<forall>x. x \<noteq> L \<longrightarrow> map_of (fs w2) x = map_of (fs w) x)"
    by (auto simp: append_log_def node_at_def update_conv' split: option.splits node.splits)
  with r nd show ?thesis by blast
qed

text \<open>A log write leaves every derived output name as it was.\<close>

lemma append_keeps_out_lookup:
  assumes ap: "append_log w (path_join d l) f e = Inr w2"
    and l: "CHR ''/'' \<notin> set l" "last l = CHR ''t''" "l \<noteq> []"
  shows "lookup w2 (out_name_of x) = lookup w (out_name_of x)"
proof -
  from append_log_effect [OF ap] obtain L where
    c: "cwd w2 = cwd w" and
    r: "resolve w (path_join d l) = Inr L" and
    nd: "node_at (fs w) L \<noteq> Some Dir" "node_at (fs w2) L \<noteq> Some Dir" and
    same: "\<And>y. y \<noteq> L \<Longrightarrow> map_of (fs w2) y = map_of (fs w) y"
    by blast
  have lastL: "last L = CHR ''t''" by (rule log_path_last [OF l r])
  show ?thesis
  proof (rule lookup_both_ways [OF c])
    fix y
    show "(node_at (fs w2) y = Some Dir) = (node_at (fs w) y = Some Dir)"
      using nd same [of y] by (cases "y = L") (auto simp: node_at_def)
  next
    fix P
    assume "resolve w (out_name_of x) = Inr P"
    then have "last P = CHR ''f''" by (rule out_path_last)
    with lastL have "P \<noteq> L" by auto
    then show "node_at (fs w2) P = node_at (fs w) P"
      using same [of P] by (simp add: node_at_def)
  qed
qed

text \<open>A translate call for a name that does not exist leaves every other derived
  output name as it was, when the library changes no path but the destination.\<close>

lemma translate_keeps_other_lookup:
  assumes frame: "\<And>q. resolve w (out_name_of f) \<noteq> Inr q \<Longrightarrow> map_of (fs w1) q = map_of (fs w) q"
    and c: "cwd w1 = cwd w"
    and nex: "\<not> os_path_exists w (out_name_of f)"
    and ne: "out_name_of f' \<noteq> out_name_of f"
  shows "lookup w1 (out_name_of f') = lookup w (out_name_of f')"
proof (cases "resolve w (out_name_of f)")
  case (Inl e)
  then have all: "\<And>q. map_of (fs w1) q = map_of (fs w) q" using frame by simp
  show ?thesis
    by (rule lookup_both_ways [OF c]) (simp_all add: all node_at_def)
next
  case (Inr Q)
  with nex have none: "node_at (fs w) Q = None"
    by (simp add: os_path_exists_def lookup_def)
  from out_paths_distinct [OF Inr ne] obtain P' where
    r': "resolve w (out_name_of f') = Inr P'" and d: "P' \<noteq> Q" by blast
  have same: "\<And>q. q \<noteq> Q \<Longrightarrow> node_at (fs w1) q = node_at (fs w) q"
    using frame Inr by (simp add: node_at_def)
  show ?thesis
  proof (rule lookup_transfer [OF c _ r'])
    fix y assume "node_at (fs w) y = Some Dir"
    with none have "y \<noteq> Q" by auto
    with same \<open>node_at (fs w) y = Some Dir\<close> show "node_at (fs w1) y = Some Dir" by simp
  next
    show "node_at (fs w1) P' = node_at (fs w) P'" using same d by simp
  qed
qed



text \<open>What one pass of the converter's loop body does, for a file it does not skip and
  whose name resolves.\<close>

lemma compress_file_cases:
  assumes nex: "\<not> os_path_exists w (out_name_of f)"
    and ep: "epsg_from_filename self f = Inr self1"
    and st: "state_of (compress_file g out_dir f (self, w)) = (self', w')"
  obtains opts res f1 where
    "gdal_Translate g w (out_name_of f) f opts = (res, f1)"
    "w' = w\<lparr>fs := f1, trace := trace w @ [Translate_call (out_name_of f) f opts]\<rparr> \<or>
     (\<exists>e. res = Some e \<and>
       append_log (w\<lparr>fs := f1, trace := trace w @ [Translate_call (out_name_of f) f opts]\<rparr>)
         (path_join out_dir ''compression_and_tiling_errors.txt'') f e = Inr w')"
proof -
  obtain opts self2 where cto: "create_translate_options self1 = (opts, self2)"
    by (cases "create_translate_options self1")
  obtain res f1 where tr: "gdal_Translate g w (out_name_of f) f opts = (res, f1)"
    by (cases "gdal_Translate g w (out_name_of f) f opts")
  let ?w1 = "w\<lparr>fs := f1, trace := trace w @ [Translate_call (out_name_of f) f opts]\<rparr>"
  let ?lp = "path_join out_dir ''compression_and_tiling_errors.txt''"
  show thesis
  proof (cases res)
    case None
    with nex ep cto tr st have "w' = ?w1"
      by (simp add: compress_file_def Let_def)
    with tr that show thesis by blast
  next
    case (Some e)
    show thesis
    proof (cases "append_log ?w1 ?lp f e")
      case (Inl err)
      with Some nex ep cto tr st have "w' = ?w1"
        by (simp add: compress_file_def Let_def)
      with tr that show thesis by blast
    next
      case (Inr w2)
      with Some nex ep cto tr st have "w' = w2"
        by (simp add: compress_file_def Let_def)
      with Inr Some tr that show thesis by blast
    qed
  qed
qed

lemma compress_file_keeps:
  assumes frame: "\<And>w dest src opts q. resolve w dest \<noteq> Inr q \<Longrightarrow>
        map_of (snd (gdal_Translate g w dest src opts)) q = map_of (fs w) q"
    and ex: "lookup w (out_name_of file0) = Some n"
    and st: "state_of (compress_file g out_dir f (self, w)) = (self', w')"
  shows "cwd w' = cwd w \<and> lookup w' (out_name_of file0) = Some n \<and>
         (\<exists>evs. trace w' = trace w @ evs \<and> list_all (\<lambda>ev. \<not> involves file0 ev) evs)"
proof (cases "os_path_exists w (out_name_of f)")
  case True
  with st have "w' = w" by (simp add: compress_file_def)
  with ex show ?thesis by simp
next
  case False
  with ex have names: "out_name_of file0 \<noteq> out_name_of f" "f \<noteq> file0"
    by (auto simp: os_path_exists_def)
  show ?thesis
  proof (cases "epsg_from_filename self f")
    case (Inl err)
    with False st have "w' = w" by (simp add: compress_file_def)
    with ex show ?thesis by simp
  next
    case (Inr self1)
    from compress_file_cases [OF False Inr st] obtain opts res f1 where
      tr: "gdal_Translate g w (out_name_of f) f opts = (res, f1)" and
      w': "w' = w\<lparr>fs := f1, trace := trace w @ [Translate_call (out_name_of f) f opts]\<rparr> \<or>
        (\<exists>e. res = Some e \<and>
          append_log (w\<lparr>fs := f1, trace := trace w @ [Translate_call (out_name_of f) f opts]\<rparr>)
            (path_join out_dir ''compression_and_tiling_errors.txt'') f e = Inr w')"
      by blast
    let ?w1 = "w\<lparr>fs := f1, trace := trace w @ [Translate_call (out_name_of f) f opts]\<rparr>"
    have fr: "\<And>q. resolve w (out_name_of f) \<noteq> Inr q \<Longrightarrow> map_of (fs ?w1) q = map_of (fs w) q"
      using frame [of w "out_name_of f" _ f opts] tr by simp
    have l1: "lookup ?w1 (out_name_of file0) = Some n"
      using translate_keeps_other_lookup [of w f ?w1 file0, OF fr _ False names(1)] ex by simp
    have ev1: "\<not> involves file0 (Translate_call (out_name_of f) f opts)"
      using names by auto
    from w' show ?thesis
    proof
      assume "w' = ?w1"
      with l1 ev1 show ?thesis by simp
    next
      assume "\<exists>e. res = Some e \<and>
          append_log ?w1 (path_join out_dir ''compression_and_tiling_errors.txt'') f e = Inr w'"
      then obtain e where
        ap: "append_log ?w1 (path_join out_dir ''compression_and_tiling_errors.txt'') f e = Inr w'"
        by blast
      from append_keeps_out_lookup [OF ap, of file0] l1 have l2: "lookup w' (out_name_of file0) = Some n"
        by simp
      from append_log_effect [OF ap] have
        c: "cwd w' = cwd w" and
        t: "trace w' = trace w @ [Translate_call (out_name_of f) f opts,
              Log_write (path_join out_dir ''compression_and_tiling_errors.txt'') f e]"
        by simp_all
      have "list_all (\<lambda>ev. \<not> involves file0 ev)
          [Translate_call (out_name_of f) f opts,
           Log_write (path_join out_dir ''compression_and_tiling_errors.txt'') f e]"
        using names by auto
      with c t l2 show ?thesis by blast
    qed
  qed
qed

section \<open>The overview builder\<close>

lemma overview_file_returned:
  "overview_file g f (self, w) = Returned (self1, w1) \<Longrightarrow>
   self1 = self \<and>
   trace w1 = trace w @ [Open_call f, BuildOverviews_call f ''CUBIC'' (overview_levels self), Close_call f]"
  by (auto simp: overview_file_def Let_def split: option.splits prod.splits)

lemma overviews_returned:
  "batch_create_overviews g (self, w) files = Returned (self1, w1) \<Longrightarrow>
   self1 = self \<and>
   trace w1 = trace w @
     concat (map (\<lambda>f. [Open_call f, BuildOverviews_call f ''CUBIC'' (overview_levels self), Close_call f]) files)"
proof (induction files arbitrary: w)
  case Nil
  then show ?case by (simp add: batch_create_overviews_def)
next
  case (Cons f files)
  from Cons.prems obtain s2 where
    a: "overview_file g f (self, w) = Returned s2" and
    b: "batch_create_overviews g s2 files = Returned (self1, w1)"
    by (auto simp: batch_create_overviews_def split: outcome.splits)
  obtain self2 w2 where s2: "s2 = (self2, w2)" by (cases s2)
  from a s2 have c: "self2 = self"
    "trace w2 = trace w @ [Open_call f, BuildOverviews_call f ''CUBIC'' (overview_levels self), Close_call f]"
    using overview_file_returned by blast+
  from Cons.IH [of w2] b s2 c(1) have
    "self1 = self \<and> trace w1 = trace w2 @
       concat (map (\<lambda>f. [Open_call f, BuildOverviews_call f ''CUBIC'' (overview_levels self), Close_call f]) files)"
    by simp
  with c(2) show ?case by simp
qed

lemma overviews_open_fails:
  "batch_create_overviews g st pre = Returned (self1, w1) \<Longrightarrow>
   gdal_Open g w1 f = Some e \<Longrightarrow>
   batch_create_overviews g st (pre @ f # post) =
     Raised (LibraryError e) (self1, w1\<lparr>trace := trace w1 @ [Open_call f]\<rparr>)"
  by (simp add: batch_create_overviews_def for_each_append overview_file_def)

lemma overviews_build_fails:
  "batch_create_overviews g st pre = Returned (self1, w1) \<Longrightarrow>
   gdal_Open g w1 f = None \<Longrightarrow>
   gdal_BuildOverviews g (w1\<lparr>trace := trace w1 @ [Open_call f]\<rparr>) f ''CUBIC'' (overview_levels self1)
     = (Some e, fs1) \<Longrightarrow>
   batch_create_overviews g st (pre @ f # post) =
     Raised (LibraryError e)
       (self1, w1\<lparr>fs := fs1,
                 trace := trace w1 @ [Open_call f, BuildOverviews_call f ''CUBIC'' (overview_levels self1)]\<rparr>)"
  by (simp add: batch_create_overviews_def for_each_append overview_file_def)

text \<open>
  C7. On an object with the overview levels of \<open>__init__\<close>, every file the builder gets
  through is opened, asked for overviews with \<open>CUBIC\<close> at the factors 2 and 4, and
  closed, in that order. When the library fails to open the next file, or to build its
  overviews, the exception leaves \<open>batch_create_overviews\<close>: the result is the same
  whatever files follow, and its trace ends at the failing call.
\<close>

theorem overviews_fixed_levels_no_isolation:
  assumes "overview_levels self = [2, 4]"
    and "batch_create_overviews g (self, w) pre = Returned (self1, w1)"
  shows "self1 = self
    \<and> trace w1 = trace w @
         concat (map (\<lambda>f. [Open_call f, BuildOverviews_call f ''CUBIC'' [2, 4], Close_call f]) pre)
    \<and> (gdal_Open g w1 f = Some e \<longrightarrow>
         batch_create_overviews g (self, w) (pre @ f # post) =
           Raised (LibraryError e) (self, w1\<lparr>trace := trace w1 @ [Open_call f]\<rparr>))
    \<and> (gdal_Open g w1 f = None \<and>
        gdal_BuildOverviews g (w1\<lparr>trace := trace w1 @ [Open_call f]\<rparr>) f ''CUBIC'' [2, 4]
          = (Some e, fs1) \<longrightarrow>
         batch_create_overviews g (self, w) (pre @ f # post) =
           Raised (LibraryError e)
             (self, w1\<lparr>fs := fs1,
                      trace := trace w1 @ [Open_call f, BuildOverviews_call f ''CUBIC'' [2, 4]]\<rparr>))"
proof -
  from overviews_returned [OF assms(2)] assms(1) have
    r: "self1 = self"
    "trace w1 = trace w @
       concat (map (\<lambda>f. [Open_call f, BuildOverviews_call f ''CUBIC'' [2, 4], Close_call f]) pre)"
    by simp_all
  have o: "gdal_Open g w1 f = Some e \<longrightarrow>
         batch_create_overviews g (self, w) (pre @ f # post) =
           Raised (LibraryError e) (self, w1\<lparr>trace := trace w1 @ [Open_call f]\<rparr>)"
    using overviews_open_fails [OF assms(2)] r(1) by blast
  have b: "gdal_Open g w1 f = None \<and>
        gdal_BuildOverviews g (w1\<lparr>trace := trace w1 @ [Open_call f]\<rparr>) f ''CUBIC'' [2, 4]
          = (Some e, fs1) \<longrightarrow>
         batch_create_overviews g (self, w) (pre @ f # post) =
           Raised (LibraryError e)
             (self, w1\<lparr>fs := fs1,
                      trace := trace w1 @ [Open_call f, BuildOverviews_call f ''CUBIC'' [2, 4]]\<rparr>)"
    using overviews_build_fails [OF assms(2), of f e fs1 post] r(1) assms(1) by auto
  from r o b show ?thesis by blast
qed


text \<open>The theorem on three files, the second of which the library rejects.\<close>

theorem overviews_fixed_levels_no_isolation_witness:
  "overview_levels cog_init = [2, 4]
   \<and> batch_create_overviews (stub_gdal [''/in/b_bcalb.asc'']) (cog_init, demo_world) [''/in/a_utm10.dem'']
       = Returned (cog_init, demo_world\<lparr>trace :=
           [Open_call ''/in/a_utm10.dem'', BuildOverviews_call ''/in/a_utm10.dem'' ''CUBIC'' [2, 4],
            Close_call ''/in/a_utm10.dem'']\<rparr>)
   \<and> gdal_Open (stub_gdal [''/in/b_bcalb.asc''])
         (demo_world\<lparr>trace :=
           [Open_call ''/in/a_utm10.dem'', BuildOverviews_call ''/in/a_utm10.dem'' ''CUBIC'' [2, 4],
            Close_call ''/in/a_utm10.dem'']\<rparr>) ''/in/b_bcalb.asc''
       = Some ''not recognized as a supported file format''
   \<and> batch_create_overviews (stub_gdal [''/in/b_bcalb.asc'']) (cog_init, demo_world)
         ([''/in/a_utm10.dem''] @ ''/in/b_bcalb.asc'' # [''/in/c_badtoken.tif''])
       = Raised (LibraryError ''not recognized as a supported file format'')
           (cog_init, demo_world\<lparr>trace :=
              [Open_call ''/in/a_utm10.dem'', BuildOverviews_call ''/in/a_utm10.dem'' ''CUBIC'' [2, 4],
               Close_call ''/in/a_utm10.dem'', Open_call ''/in/b_bcalb.asc'']\<rparr>)"
proof -
  let ?w1 = "demo_world\<lparr>trace :=
           [Open_call ''/in/a_utm10.dem'', BuildOverviews_call ''/in/a_utm10.dem'' ''CUBIC'' [2, 4],
            Close_call ''/in/a_utm10.dem'']\<rparr>"
  have h1: "overview_levels cog_init = [2, 4]"
    by (simp add: cog_init_def)
  have h2: "batch_create_overviews (stub_gdal [''/in/b_bcalb.asc'']) (cog_init, demo_world) [''/in/a_utm10.dem'']
       = Returned (cog_init, ?w1)"
    by code_simp
  have h3: "gdal_Open (stub_gdal [''/in/b_bcalb.asc'']) ?w1 ''/in/b_bcalb.asc''
       = Some ''not recognized as a supported file format''"
    by code_simp
  from overviews_fixed_levels_no_isolation [OF h1 h2,
      of "''/in/b_bcalb.asc''" "''not recognized as a supported file format''" "[''/in/c_badtoken.tif'']"]
    h3
  have c: "batch_create_overviews (stub_gdal [''/in/b_bcalb.asc'']) (cog_init, demo_world)
         ([''/in/a_utm10.dem''] @ ''/in/b_bcalb.asc'' # [''/in/c_badtoken.tif''])
       = Raised (LibraryError ''not recognized as a supported file format'')
           (cog_init, ?w1\<lparr>trace := trace ?w1 @ [Open_call ''/in/b_bcalb.asc'']\<rparr>)"
    by blast
  have t: "?w1\<lparr>trace := trace ?w1 @ [Open_call ''/in/b_bcalb.asc'']\<rparr> = demo_world\<lparr>trace :=
              [Open_call ''/in/a_utm10.dem'', BuildOverviews_call ''/in/a_utm10.dem'' ''CUBIC'' [2, 4],
               Close_call ''/in/a_utm10.dem'', Open_call ''/in/b_bcalb.asc'']\<rparr>"
    by simp
  show ?thesis
    using h1 h2 h3 c unfolding t by (intro conjI)
qed

section \<open>Per-file isolation of translate failures\<close>








section \<open>Existing outputs are skipped\<close>

lemma cog_file_cases:
  assumes nex: "\<not> os_path_exists w (out_name_of f)"
    and st: "state_of (cog_file g trans_opt out f (self, w)) = (self', w')"
  obtains res f1 where
    "gdal_Translate g w (out_name_of f) f trans_opt = (res, f1)"
    "w' = w\<lparr>fs := f1, trace := trace w @ [Translate_call (out_name_of f) f trans_opt]\<rparr> \<or>
     (\<exists>e. res = Some e \<and>
       append_log (w\<lparr>fs := f1, trace := trace w @ [Translate_call (out_name_of f) f trans_opt]\<rparr>)
         (path_join out ''COG_creation_errors.txt'') f e = Inr w')"
proof -
  obtain res f1 where tr: "gdal_Translate g w (out_name_of f) f trans_opt = (res, f1)"
    by (cases "gdal_Translate g w (out_name_of f) f trans_opt")
  let ?w1 = "w\<lparr>fs := f1, trace := trace w @ [Translate_call (out_name_of f) f trans_opt]\<rparr>"
  let ?lp = "path_join out ''COG_creation_errors.txt''"
  show thesis
  proof (cases res)
    case None
    with nex tr st have "w' = ?w1"
      by (simp add: cog_file_def Let_def)
    with tr that show thesis by blast
  next
    case (Some e)
    show thesis
    proof (cases "append_log ?w1 ?lp f e")
      case (Inl err)
      with Some nex tr st have "w' = ?w1"
        by (simp add: cog_file_def Let_def)
      with tr that show thesis by blast
    next
      case (Inr w2)
      with Some nex tr st have "w' = w2"
        by (simp add: cog_file_def Let_def)
      with Inr Some tr that show thesis by blast
    qed
  qed
qed

lemma cog_file_keeps:
  assumes frame: "\<And>w dest src opts q. resolve w dest \<noteq> Inr q \<Longrightarrow>
        map_of (snd (gdal_Translate g w dest src opts)) q = map_of (fs w) q"
    and ex: "lookup w (out_name_of file0) = Some n"
    and st: "state_of (cog_file g trans_opt out f (self, w)) = (self', w')"
  shows "cwd w' = cwd w \<and> lookup w' (out_name_of file0) = Some n \<and>
         (\<exists>evs. trace w' = trace w @ evs \<and> list_all (\<lambda>ev. \<not> involves file0 ev) evs)"
proof (cases "os_path_exists w (out_name_of f)")
  case True
  with st have "w' = w" by (simp add: cog_file_def)
  with ex show ?thesis by simp
next
  case False
  with ex have names: "out_name_of file0 \<noteq> out_name_of f" "f \<noteq> file0"
    by (auto simp: os_path_exists_def)
  from cog_file_cases [OF False st] obtain res f1 where
    tr: "gdal_Translate g w (out_name_of f) f trans_opt = (res, f1)" and
    w': "w' = w\<lparr>fs := f1, trace := trace w @ [Translate_call (out_name_of f) f trans_opt]\<rparr> \<or>
      (\<exists>e. res = Some e \<and>
        append_log (w\<lparr>fs := f1, trace := trace w @ [Translate_call (out_name_of f) f trans_opt]\<rparr>)
          (path_join out ''COG_creation_errors.txt'') f e = Inr w')"
    by blast
  let ?w1 = "w\<lparr>fs := f1, trace := trace w @ [Translate_call (out_name_of f) f trans_opt]\<rparr>"
  have fr: "\<And>q. resolve w (out_name_of f) \<noteq> Inr q \<Longrightarrow> map_of (fs ?w1) q = map_of (fs w) q"
    using frame [of w "out_name_of f" _ f trans_opt] tr by simp
  have l1: "lookup ?w1 (out_name_of file0) = Some n"
    using translate_keeps_other_lookup [of w f ?w1 file0, OF fr _ False names(1)] ex by simp
  have ev1: "\<not> involves file0 (Translate_call (out_name_of f) f trans_opt)"
    using names by auto
  from w' show ?thesis
  proof
    assume "w' = ?w1"
    with l1 ev1 show ?thesis by simp
  next
    assume "\<exists>e. res = Some e \<and>
        append_log ?w1 (path_join out ''COG_creation_errors.txt'') f e = Inr w'"
    then obtain e where
      ap: "append_log ?w1 (path_join out ''COG_creation_errors.txt'') f e = Inr w'"
      by blast
    from append_keeps_out_lookup [OF ap, of file0] l1 have l2: "lookup w' (out_name_of file0) = Some n"
      by simp
    from append_log_effect [OF ap] have
      c: "cwd w' = cwd w" and
      t: "trace w' = trace w @ [Translate_call (out_name_of f) f trans_opt,
            Log_write (path_join out ''COG_creation_errors.txt'') f e]"
      by simp_all
    have "list_all (\<lambda>ev. \<not> involves file0 ev)
        [Translate_call (out_name_of f) f trans_opt,
         Log_write (path_join out ''COG_creation_errors.txt'') f e]"
      using names by auto
    with c t l2 show ?thesis by blast
  qed
qed

text \<open>The invariant of both loops, for a derived name that holds node \<open>n\<close>.\<close>

lemma loop_keeps:
  assumes step: "\<And>f self w self' w'.
        lookup w (out_name_of file0) = Some n \<Longrightarrow>
        state_of (body f (self :: cog, w :: world)) = (self', w') \<Longrightarrow>
        cwd w' = cwd w \<and> lookup w' (out_name_of file0) = Some n \<and>
        (\<exists>evs. trace w' = trace w @ evs \<and> list_all (\<lambda>ev. \<not> involves file0 ev) evs)"
    and ex: "lookup w (out_name_of file0) = Some n"
    and st: "state_of (for_each body files (self, w)) = (self', w')"
  shows "cwd w' = cwd w \<and> lookup w' (out_name_of file0) = Some n \<and>
         (\<exists>evs. trace w' = trace w @ evs \<and> list_all (\<lambda>ev. \<not> involves file0 ev) evs)"
proof -
  let ?I = "\<lambda>s :: cog \<times> world. cwd (snd s) = cwd w \<and> lookup (snd s) (out_name_of file0) = Some n \<and>
        (\<exists>evs. trace (snd s) = trace w @ evs \<and> list_all (\<lambda>ev. \<not> involves file0 ev) evs)"
  have "?I (state_of (for_each body files (self, w)))"
  proof (rule for_each_invariant [where I = ?I])
    show "?I (self, w)" using ex by simp
  next
    fix x s
    assume I: "?I s"
    obtain sf sw where s: "s = (sf, sw)" by (cases s)
    obtain sf' sw' where s': "state_of (body x s) = (sf', sw')" by (cases "state_of (body x s)")
    from I s have "lookup sw (out_name_of file0) = Some n" by simp
    from step [OF this, of x sf sf' sw'] s s' have
      k: "cwd sw' = cwd sw" "lookup sw' (out_name_of file0) = Some n"
      and "\<exists>evs. trace sw' = trace sw @ evs \<and> list_all (\<lambda>ev. \<not> involves file0 ev) evs"
      by simp_all
    then obtain evs2 where e2: "trace sw' = trace sw @ evs2" "list_all (\<lambda>ev. \<not> involves file0 ev) evs2"
      by blast
    from I s obtain evs1 where e1: "trace sw = trace w @ evs1" "list_all (\<lambda>ev. \<not> involves file0 ev) evs1"
      by auto
    from e1 e2 have "trace sw' = trace w @ (evs1 @ evs2) \<and> list_all (\<lambda>ev. \<not> involves file0 ev) (evs1 @ evs2)"
      by simp
    then have "\<exists>evs. trace sw' = trace w @ evs \<and> list_all (\<lambda>ev. \<not> involves file0 ev) evs" by blast
    with k I s s' show "?I (state_of (body x s))" by simp
  qed
  with st show ?thesis by simp
qed

lemma chdir_result: "os_chdir w p = Inr w1 \<Longrightarrow> \<exists>d. resolve w p = Inr d \<and> w1 = w\<lparr>cwd := d\<rparr>"
  by (auto simp: os_chdir_def split: sum.splits option.splits node.splits)

lemma converter_keeps:
  assumes frame: "\<And>w dest src opts q. resolve w dest \<noteq> Inr q \<Longrightarrow>
        map_of (snd (gdal_Translate g w dest src opts)) q = map_of (fs w) q"
    and d: "resolve w out_dir = Inr d"
    and ex: "lookup (w\<lparr>cwd := d\<rparr>) (out_name_of file0) = Some n"
  shows "lookup ((snd (state_of (batch_compress_and_tile g (self, w) list_of_files out_dir)))\<lparr>cwd := d\<rparr>)
           (out_name_of file0) = Some n \<and>
         (\<exists>evs. trace (snd (state_of (batch_compress_and_tile g (self, w) list_of_files out_dir)))
                  = trace w @ evs \<and> list_all (\<lambda>ev. \<not> involves file0 ev) evs)"
proof (cases "os_chdir w out_dir")
  case (Inl err)
  then have "state_of (batch_compress_and_tile g (self, w) list_of_files out_dir) = (self, w)"
    by (simp add: batch_compress_and_tile_def)
  with ex show ?thesis by simp
next
  case (Inr w1)
  with d have w1: "w1 = w\<lparr>cwd := d\<rparr>" using chdir_result by fastforce
  from Inr have b: "batch_compress_and_tile g (self, w) list_of_files out_dir =
      for_each (compress_file g out_dir) list_of_files (self, w1)"
    by (simp add: batch_compress_and_tile_def)
  have ex1: "lookup w1 (out_name_of file0) = Some n" using ex w1 by simp
  obtain self' w' where st: "state_of (for_each (compress_file g out_dir) list_of_files (self, w1)) = (self', w')"
    by (cases "state_of (for_each (compress_file g out_dir) list_of_files (self, w1))")
  have "cwd w' = cwd w1 \<and> lookup w' (out_name_of file0) = Some n \<and>
         (\<exists>evs. trace w' = trace w1 @ evs \<and> list_all (\<lambda>ev. \<not> involves file0 ev) evs)"
    by (rule loop_keeps [where body = "compress_file g out_dir", OF _ ex1 st])
       (rule compress_file_keeps [OF frame], assumption+)
  moreover have "cwd w1 = d" "trace w1 = trace w" by (simp_all add: w1)
  ultimately have "w'\<lparr>cwd := d\<rparr> = w'" and "lookup w' (out_name_of file0) = Some n"
    and "\<exists>evs. trace w' = trace w @ evs \<and> list_all (\<lambda>ev. \<not> involves file0 ev) evs"
    by simp_all
  then show ?thesis by (simp add: b st)
qed

lemma assembler_keeps:
  assumes frame: "\<And>w dest src opts q. resolve w dest \<noteq> Inr q \<Longrightarrow>
        map_of (snd (gdal_Translate g w dest src opts)) q = map_of (fs w) q"
    and d: "resolve w (path_join out_dir ''COG'') = Inr d"
    and ex: "lookup (w\<lparr>cwd := d\<rparr>) (out_name_of file0) = Some n"
  shows "lookup ((snd (state_of (batch_create_cog g (self, w) list_of_files out_dir)))\<lparr>cwd := d\<rparr>)
           (out_name_of file0) = Some n \<and>
         (\<exists>evs. trace (snd (state_of (batch_create_cog g (self, w) list_of_files out_dir)))
                  = trace w @ evs \<and> list_all (\<lambda>ev. \<not> involves file0 ev) evs)"
proof (cases "os_mkdir w (path_join out_dir ''COG'')")
  case (Inl err)
  then have "state_of (batch_create_cog g (self, w) list_of_files out_dir) = (self, w)"
    by (simp add: batch_create_cog_def Let_def)
  with ex show ?thesis by simp
next
  case (Inr w1)
  let ?out = "path_join out_dir ''COG''"
  from Inr d have none: "node_at (fs w) d = None" and w1: "w1 = w\<lparr>fs := AList.update d Dir (fs w)\<rparr>"
    by (auto simp: os_mkdir_def split: option.splits)
  from none have root: "d \<noteq> ''/''" by (auto simp: node_at_def)
  have dirs: "node_at (fs w1) x = Some Dir" if "node_at (fs w) x = Some Dir" for x
    using that by (auto simp: w1 node_at_def update_conv')
  from ex obtain P where P: "resolve (w\<lparr>cwd := d\<rparr>) (out_name_of file0) = Inr P"
    and nP: "node_at (fs w) P = Some n"
    by (auto simp: lookup_def split: sum.splits)
  from nP none have "P \<noteq> d" by auto
  then have sameP: "node_at (fs w1) P = node_at (fs w) P"
    by (auto simp: w1 node_at_def update_conv')
  have ex1: "lookup (w1\<lparr>cwd := d\<rparr>) (out_name_of file0) = Some n"
    using lookup_transfer [of "w1\<lparr>cwd := d\<rparr>" "w\<lparr>cwd := d\<rparr>" "out_name_of file0" P] dirs P sameP ex
    by simp
  have d1: "resolve w1 ?out = Inr d"
  proof (rule resolve_mono [OF _ _ d])
    show "cwd w1 = cwd w" by (simp add: w1)
    show "\<And>x. node_at (fs w) x = Some Dir \<Longrightarrow> node_at (fs w1) x = Some Dir" by (rule dirs)
  qed
  have t1: "trace w1 = trace w" by (simp add: w1)
  show ?thesis
  proof (cases "os_chdir w1 ?out")
    case (Inl err)
    with Inr have "state_of (batch_create_cog g (self, w) list_of_files out_dir) = (self, w1)"
      by (simp add: batch_create_cog_def Let_def)
    with ex1 t1 show ?thesis by simp
  next
    case chd: (Inr w2)
    with d1 have w2: "w2 = w1\<lparr>cwd := d\<rparr>" using chdir_result by fastforce
    from chd Inr have b: "batch_create_cog g (self, w) list_of_files out_dir =
        for_each (cog_file g (cog_trans_str self) ?out) list_of_files (self, w2)"
      by (simp add: batch_create_cog_def Let_def)
    have ex2: "lookup w2 (out_name_of file0) = Some n" using ex1 w2 by simp
    obtain self' w' where st:
      "state_of (for_each (cog_file g (cog_trans_str self) ?out) list_of_files (self, w2)) = (self', w')"
      by (cases "state_of (for_each (cog_file g (cog_trans_str self) ?out) list_of_files (self, w2))")
    have "cwd w' = cwd w2 \<and> lookup w' (out_name_of file0) = Some n \<and>
         (\<exists>evs. trace w' = trace w2 @ evs \<and> list_all (\<lambda>ev. \<not> involves file0 ev) evs)"
      by (rule loop_keeps [where body = "cog_file g (cog_trans_str self) ?out", OF _ ex2 st])
         (rule cog_file_keeps [OF frame], assumption+)
    moreover have "cwd w2 = d" "trace w2 = trace w" by (simp_all add: w2 t1)
    ultimately have "w'\<lparr>cwd := d\<rparr> = w'" and "lookup w' (out_name_of file0) = Some n"
      and "\<exists>evs. trace w' = trace w @ evs \<and> list_all (\<lambda>ev. \<not> involves file0 ev) evs"
      by simp_all
    then show ?thesis by (simp add: b st)
  qed
qed

lemma assembler_loop_keeps:
  assumes frame: "\<And>w dest src opts q. resolve w dest \<noteq> Inr q \<Longrightarrow>
        map_of (snd (gdal_Translate g w dest src opts)) q = map_of (fs w) q"
    and ex: "lookup w (out_name_of file0) = Some n"
  shows "lookup (snd (state_of (for_each (cog_file g trans_opt out) list_of_files (self, w))))
           (out_name_of file0) = Some n \<and>
         (\<exists>evs. trace (snd (state_of (for_each (cog_file g trans_opt out) list_of_files (self, w))))
                  = trace w @ evs \<and> list_all (\<lambda>ev. \<not> involves file0 ev) evs)"
proof -
  obtain self' w' where st:
    "state_of (for_each (cog_file g trans_opt out) list_of_files (self, w)) = (self', w')"
    by (cases "state_of (for_each (cog_file g trans_opt out) list_of_files (self, w))")
  have "cwd w' = cwd w \<and> lookup w' (out_name_of file0) = Some n \<and>
         (\<exists>evs. trace w' = trace w @ evs \<and> list_all (\<lambda>ev. \<not> involves file0 ev) evs)"
    by (rule loop_keeps [where body = "cog_file g trans_opt out", OF _ ex st])
       (rule cog_file_keeps [OF frame], assumption+)
  then show ?thesis by (simp add: st)
qed

lemma stub_frame:
  "resolve w dest \<noteq> Inr q \<Longrightarrow>
   map_of (snd (gdal_Translate (stub_gdal rejected) w dest src opts)) q = map_of (fs w) q"
  by (auto simp: stub_gdal_def update_conv' split: sum.splits)

text \<open>
  C1. Let the library's translate operation change no path but its destination. When
  the output directory resolves to \<open>d\<close> and the derived name of a file (its base name
  with the extension \<open>.tif\<close>) names a node in \<open>d\<close>, then after
  \<open>batch_compress_and_tile\<close>, however it ends, the name still names the same node in
  \<open>d\<close>, and none of the events of the run involves the file: no translate call reads it
  or writes its derived name, and no log entry is written for it. The same holds for
  \<open>batch_create_cog\<close> and the \<open>COG\<close> directory under the output directory, and for the
  loop of \<open>batch_create_cog\<close> started in any state, where the derived name is looked
  up in the working directory.
\<close>

theorem existing_outputs_untouched:
  assumes "\<And>w dest src opts q. resolve w dest \<noteq> Inr q \<Longrightarrow>
        map_of (snd (gdal_Translate g w dest src opts)) q = map_of (fs w) q"
  shows
   "(resolve w out_dir = Inr d \<and> lookup (w\<lparr>cwd := d\<rparr>) (out_name_of file) = Some n \<longrightarrow>
       lookup ((snd (state_of (batch_compress_and_tile g (self, w) list_of_files out_dir)))\<lparr>cwd := d\<rparr>)
           (out_name_of file) = Some n \<and>
       (\<exists>evs. trace (snd (state_of (batch_compress_and_tile g (self, w) list_of_files out_dir)))
                  = trace w @ evs \<and> list_all (\<lambda>ev. \<not> involves file ev) evs))
    \<and>
    (resolve w (path_join out_dir ''COG'') = Inr d \<and>
     lookup (w\<lparr>cwd := d\<rparr>) (out_name_of file) = Some n \<longrightarrow>
       lookup ((snd (state_of (batch_create_cog g (self, w) list_of_files out_dir)))\<lparr>cwd := d\<rparr>)
           (out_name_of file) = Some n \<and>
       (\<exists>evs. trace (snd (state_of (batch_create_cog g (self, w) list_of_files out_dir)))
                  = trace w @ evs \<and> list_all (\<lambda>ev. \<not> involves file ev) evs))
    \<and>
    (lookup w (out_name_of file) = Some n \<longrightarrow>
       lookup (snd (state_of (for_each (cog_file g trans_opt out) list_of_files (self, w))))
           (out_name_of file) = Some n \<and>
       (\<exists>evs. trace (snd (state_of (for_each (cog_file g trans_opt out) list_of_files (self, w))))
                  = trace w @ evs \<and> list_all (\<lambda>ev. \<not> involves file ev) evs))"
proof (intro conjI impI)
  assume "resolve w out_dir = Inr d \<and> lookup (w\<lparr>cwd := d\<rparr>) (out_name_of file) = Some n"
  then have d: "resolve w out_dir = Inr d"
    and ex: "lookup (w\<lparr>cwd := d\<rparr>) (out_name_of file) = Some n" by simp_all
  show "lookup ((snd (state_of (batch_compress_and_tile g (self, w) list_of_files out_dir)))\<lparr>cwd := d\<rparr>)
           (out_name_of file) = Some n"
    by (rule converter_keeps [OF _ d ex, THEN conjunct1]) (rule assms)
  show "\<exists>evs. trace (snd (state_of (batch_compress_and_tile g (self, w) list_of_files out_dir)))
                  = trace w @ evs \<and> list_all (\<lambda>ev. \<not> involves file ev) evs"
    by (rule converter_keeps [OF _ d ex, THEN conjunct2]) (rule assms)
next
  assume "resolve w (path_join out_dir ''COG'') = Inr d \<and>
     lookup (w\<lparr>cwd := d\<rparr>) (out_name_of file) = Some n"
  then have d: "resolve w (path_join out_dir ''COG'') = Inr d"
    and ex: "lookup (w\<lparr>cwd := d\<rparr>) (out_name_of file) = Some n" by simp_all
  show "lookup ((snd (state_of (batch_create_cog g (self, w) list_of_files out_dir)))\<lparr>cwd := d\<rparr>)
           (out_name_of file) = Some n"
    by (rule assembler_keeps [OF _ d ex, THEN conjunct1]) (rule assms)
  show "\<exists>evs. trace (snd (state_of (batch_create_cog g (self, w) list_of_files out_dir)))
                  = trace w @ evs \<and> list_all (\<lambda>ev. \<not> involves file ev) evs"
    by (rule assembler_keeps [OF _ d ex, THEN conjunct2]) (rule assms)
next
  assume ex: "lookup w (out_name_of file) = Some n"
  show "lookup (snd (state_of (for_each (cog_file g trans_opt out) list_of_files (self, w))))
           (out_name_of file) = Some n"
    by (rule assembler_loop_keeps [OF _ ex, THEN conjunct1]) (rule assms)
  show "\<exists>evs. trace (snd (state_of (for_each (cog_file g trans_opt out) list_of_files (self, w))))
                  = trace w @ evs \<and> list_all (\<lambda>ev. \<not> involves file ev) evs"
    by (rule assembler_loop_keeps [OF _ ex, THEN conjunct2]) (rule assms)
qed

text \<open>The theorem on a run of three files into \<open>/out/\<close>, the second already
  converted, on an assembler run whose output exists, and on the assembler's loop in
  the \<open>COG\<close> directory.\<close>

theorem existing_outputs_untouched_witness:
  "resolve (demo_world\<lparr>fs := fs demo_world @ [(''/out/a_utm10.tif'', File ''old'')]\<rparr>) ''/out/'' = Inr ''/out''
   \<and> lookup (demo_world\<lparr>fs := fs demo_world @ [(''/out/a_utm10.tif'', File ''old'')], cwd := ''/out''\<rparr>)
        (out_name_of ''/in/a_utm10.dem'') = Some (File ''old'')
   \<and> lookup ((snd (state_of (batch_compress_and_tile (stub_gdal [''/in/b_bcalb.asc''])
          (cog_init, demo_world\<lparr>fs := fs demo_world @ [(''/out/a_utm10.tif'', File ''old'')]\<rparr>)
          [''/in/b_bcalb.asc'', ''/in/a_utm10.dem'', ''/in/c_badtoken.tif''] ''/out/'')))\<lparr>cwd := ''/out''\<rparr>)
        (out_name_of ''/in/a_utm10.dem'') = Some (File ''old'')
   \<and> (\<exists>evs. trace (snd (state_of (batch_compress_and_tile (stub_gdal [''/in/b_bcalb.asc''])
          (cog_init, demo_world\<lparr>fs := fs demo_world @ [(''/out/a_utm10.tif'', File ''old'')]\<rparr>)
          [''/in/b_bcalb.asc'', ''/in/a_utm10.dem'', ''/in/c_badtoken.tif''] ''/out/'')))
        = trace (demo_world\<lparr>fs := fs demo_world @ [(''/out/a_utm10.tif'', File ''old'')]\<rparr>) @ evs
        \<and> list_all (\<lambda>ev. \<not> involves ''/in/a_utm10.dem'' ev) evs)
   \<and> resolve (demo_world\<lparr>fs := fs demo_world @
          [(''/out/COG'', Dir), (''/out/COG/a_utm10.tif'', File ''old'')]\<rparr>) (path_join ''/out/'' ''COG'')
        = Inr ''/out/COG''
   \<and> lookup (demo_world\<lparr>fs := fs demo_world @
          [(''/out/COG'', Dir), (''/out/COG/a_utm10.tif'', File ''old'')], cwd := ''/out/COG''\<rparr>)
        (out_name_of ''/out/a_utm10.tif'') = Some (File ''old'')
   \<and> lookup ((snd (state_of (batch_create_cog (stub_gdal [])
          (cog_init, demo_world\<lparr>fs := fs demo_world @
             [(''/out/COG'', Dir), (''/out/COG/a_utm10.tif'', File ''old'')]\<rparr>)
          [''/out/a_utm10.tif''] ''/out/'')))\<lparr>cwd := ''/out/COG''\<rparr>)
        (out_name_of ''/out/a_utm10.tif'') = Some (File ''old'')
   \<and> (\<exists>evs. trace (snd (state_of (batch_create_cog (stub_gdal [])
          (cog_init, demo_world\<lparr>fs := fs demo_world @
             [(''/out/COG'', Dir), (''/out/COG/a_utm10.tif'', File ''old'')]\<rparr>)
          [''/out/a_utm10.tif''] ''/out/'')))
        = trace (demo_world\<lparr>fs := fs demo_world @
             [(''/out/COG'', Dir), (''/out/COG/a_utm10.tif'', File ''old'')]\<rparr>) @ evs
        \<and> list_all (\<lambda>ev. \<not> involves ''/out/a_utm10.tif'' ev) evs)
   \<and> lookup (demo_world\<lparr>fs := fs demo_world @
          [(''/out/COG'', Dir), (''/out/COG/a_utm10.tif'', File ''old'')], cwd := ''/out/COG''\<rparr>)
        (out_name_of ''/out/a_utm10.tif'') = Some (File ''old'')
   \<and> lookup (snd (state_of (for_each (cog_file (stub_gdal []) (cog_trans_str cog_init) ''/out/COG'')
          [''/out/b.tif'', ''/out/a_utm10.tif'']
          (cog_init, demo_world\<lparr>fs := fs demo_world @
             [(''/out/COG'', Dir), (''/out/COG/a_utm10.tif'', File ''old'')], cwd := ''/out/COG''\<rparr>))))
        (out_name_of ''/out/a_utm10.tif'') = Some (File ''old'')
   \<and> (\<exists>evs. trace (snd (state_of (for_each (cog_file (stub_gdal []) (cog_trans_str cog_init) ''/out/COG'')
          [''/out/b.tif'', ''/out/a_utm10.tif'']
          (cog_init, demo_world\<lparr>fs := fs demo_world @
             [(''/out/COG'', Dir), (''/out/COG/a_utm10.tif'', File ''old'')], cwd := ''/out/COG''\<rparr>))))
        = trace (demo_world\<lparr>fs := fs demo_world @
             [(''/out/COG'', Dir), (''/out/COG/a_utm10.tif'', File ''old'')], cwd := ''/out/COG''\<rparr>) @ evs
        \<and> list_all (\<lambda>ev. \<not> involves ''/out/a_utm10.tif'' ev) evs)"
proof -
  let ?w = "demo_world\<lparr>fs := fs demo_world @ [(''/out/a_utm10.tif'', File ''old'')]\<rparr>"
  let ?v = "demo_world\<lparr>fs := fs demo_world @
             [(''/out/COG'', Dir), (''/out/COG/a_utm10.tif'', File ''old'')]\<rparr>"
  let ?u = "demo_world\<lparr>fs := fs demo_world @
             [(''/out/COG'', Dir), (''/out/COG/a_utm10.tif'', File ''old'')], cwd := ''/out/COG''\<rparr>"
  let ?r = "batch_compress_and_tile (stub_gdal [''/in/b_bcalb.asc'']) (cog_init, ?w)
          [''/in/b_bcalb.asc'', ''/in/a_utm10.dem'', ''/in/c_badtoken.tif''] ''/out/''"
  let ?s = "batch_create_cog (stub_gdal []) (cog_init, ?v) [''/out/a_utm10.tif''] ''/out/''"
  let ?t = "for_each (cog_file (stub_gdal []) (cog_trans_str cog_init) ''/out/COG'')
          [''/out/b.tif'', ''/out/a_utm10.tif''] (cog_init, ?u)"
  have fr: "\<And>r w dest src opts q. resolve w dest \<noteq> Inr q \<Longrightarrow>
        map_of (snd (gdal_Translate (stub_gdal r) w dest src opts)) q = map_of (fs w) q"
    by (rule stub_frame)
  have h1a: "resolve ?w ''/out/'' = Inr ''/out''" by code_simp
  have h1b: "lookup (?w\<lparr>cwd := ''/out''\<rparr>) (out_name_of ''/in/a_utm10.dem'') = Some (File ''old'')"
    by code_simp
  have h2a: "resolve ?v (path_join ''/out/'' ''COG'') = Inr ''/out/COG''" by code_simp
  have h2b: "lookup (?v\<lparr>cwd := ''/out/COG''\<rparr>) (out_name_of ''/out/a_utm10.tif'') = Some (File ''old'')"
    by code_simp
  have h3: "lookup ?u (out_name_of ''/out/a_utm10.tif'') = Some (File ''old'')"
    by code_simp
  have c1: "lookup ((snd (state_of ?r))\<lparr>cwd := ''/out''\<rparr>) (out_name_of ''/in/a_utm10.dem'')
        = Some (File ''old'') \<and>
      (\<exists>evs. trace (snd (state_of ?r)) = trace ?w @ evs \<and>
             list_all (\<lambda>ev. \<not> involves ''/in/a_utm10.dem'' ev) evs)"
    by (rule existing_outputs_untouched [THEN conjunct1, THEN mp, OF _ conjI [OF h1a h1b]]) (rule fr)
  have c2: "lookup ((snd (state_of ?s))\<lparr>cwd := ''/out/COG''\<rparr>) (out_name_of ''/out/a_utm10.tif'')
        = Some (File ''old'') \<and>
      (\<exists>evs. trace (snd (state_of ?s)) = trace ?v @ evs \<and>
             list_all (\<lambda>ev. \<not> involves ''/out/a_utm10.tif'' ev) evs)"
    by (rule existing_outputs_untouched [THEN conjunct2, THEN conjunct1, THEN mp, OF _ conjI [OF h2a h2b]])
       (rule fr)
  have c3: "lookup (snd (state_of ?t)) (out_name_of ''/out/a_utm10.tif'') = Some (File ''old'') \<and>
      (\<exists>evs. trace (snd (state_of ?t)) = trace ?u @ evs \<and>
             list_all (\<lambda>ev. \<not> involves ''/out/a_utm10.tif'' ev) evs)"
    by (rule existing_outputs_untouched [THEN conjunct2, THEN conjunct2, THEN mp, OF _ h3]) (rule fr)
  show ?thesis
    using h1a h1b c1 [THEN conjunct1] c1 [THEN conjunct2] h2a h2b c2 [THEN conjunct1] c2 [THEN conjunct2]
      h3 c3 [THEN conjunct1] c3 [THEN conjunct2]
    by (intro conjI)
qed

section \<open>The number of translate calls\<close>

lemma compress_file_effect:
  assumes frame: "\<And>w dest src opts q. resolve w dest \<noteq> Inr q \<Longrightarrow>
        map_of (snd (gdal_Translate g w dest src opts)) q = map_of (fs w) q"
    and ret: "compress_file g out_dir f (self, w) = Returned (s1, w1)"
    and nex: "\<not> os_path_exists w (out_name_of f)"
  shows "cwd w1 = cwd w \<and>
         (\<exists>evs. trace w1 = trace w @ evs \<and> length (filter is_translate evs) = 1) \<and>
         (\<forall>f'. out_name_of f' \<noteq> out_name_of f \<longrightarrow>
               os_path_exists w1 (out_name_of f') = os_path_exists w (out_name_of f'))"
proof -
  from ret nex obtain self1 where ep: "epsg_from_filename self f = Inr self1"
    by (cases "epsg_from_filename self f") (simp_all add: compress_file_def)
  from ret have st: "state_of (compress_file g out_dir f (self, w)) = (s1, w1)" by simp
  from compress_file_cases [OF nex ep st] obtain opts res f1 where
    tr: "gdal_Translate g w (out_name_of f) f opts = (res, f1)" and
    w1: "w1 = w\<lparr>fs := f1, trace := trace w @ [Translate_call (out_name_of f) f opts]\<rparr> \<or>
      (\<exists>e. res = Some e \<and>
        append_log (w\<lparr>fs := f1, trace := trace w @ [Translate_call (out_name_of f) f opts]\<rparr>)
          (path_join out_dir ''compression_and_tiling_errors.txt'') f e = Inr w1)"
    by blast
  let ?w1 = "w\<lparr>fs := f1, trace := trace w @ [Translate_call (out_name_of f) f opts]\<rparr>"
  have fr: "\<And>q. resolve w (out_name_of f) \<noteq> Inr q \<Longrightarrow> map_of (fs ?w1) q = map_of (fs w) q"
    using frame [of w "out_name_of f" _ f opts] tr by simp
  have l1: "lookup ?w1 (out_name_of f') = lookup w (out_name_of f')"
    if "out_name_of f' \<noteq> out_name_of f" for f'
    using translate_keeps_other_lookup [of w f ?w1 f', OF fr _ nex that] by simp
  from w1 show ?thesis
  proof
    assume "w1 = ?w1"
    with l1 show ?thesis by (simp add: os_path_exists_def)
  next
    assume "\<exists>e. res = Some e \<and>
        append_log ?w1 (path_join out_dir ''compression_and_tiling_errors.txt'') f e = Inr w1"
    then obtain e where
      ap: "append_log ?w1 (path_join out_dir ''compression_and_tiling_errors.txt'') f e = Inr w1"
      by blast
    from append_log_effect [OF ap] have
      c: "cwd w1 = cwd w" and
      t: "trace w1 = trace w @ [Translate_call (out_name_of f) f opts,
            Log_write (path_join out_dir ''compression_and_tiling_errors.txt'') f e]"
      by simp_all
    have l2: "lookup w1 (out_name_of f') = lookup w (out_name_of f')"
      if "out_name_of f' \<noteq> out_name_of f" for f'
      using append_keeps_out_lookup [OF ap, of f'] l1 [OF that] by simp
    from t have "\<exists>evs. trace w1 = trace w @ evs \<and> length (filter is_translate evs) = 1"
      by simp
    with c l2 show ?thesis by (simp add: os_path_exists_def)
  qed
qed

lemma compress_loop_count:
  assumes frame: "\<And>w dest src opts q. resolve w dest \<noteq> Inr q \<Longrightarrow>
        map_of (snd (gdal_Translate g w dest src opts)) q = map_of (fs w) q"
    and "distinct (map out_name_of files)"
    and "for_each (compress_file g out_dir) files (self, w) = Returned (self', w')"
  shows "\<exists>evs. trace w' = trace w @ evs \<and>
          length (filter is_translate evs) =
          length (filter (\<lambda>f. \<not> os_path_exists w (out_name_of f)) files)"
  using assms(2,3)
proof (induction files arbitrary: self w)
  case Nil
  then show ?case by simp
next
  case (Cons f files)
  from Cons.prems(2) obtain s1 w1 where
    step: "compress_file g out_dir f (self, w) = Returned (s1, w1)" and
    rest: "for_each (compress_file g out_dir) files (s1, w1) = Returned (self', w')"
    by (cases "compress_file g out_dir f (self, w)") auto
  from Cons.prems(1) have dist: "distinct (map out_name_of files)"
    and fresh: "\<And>f'. f' \<in> set files \<Longrightarrow> out_name_of f' \<noteq> out_name_of f"
    by (auto simp: image_iff)
  from Cons.IH [OF dist rest] obtain evs2 where
    e2: "trace w' = trace w1 @ evs2"
        "length (filter is_translate evs2) =
         length (filter (\<lambda>f. \<not> os_path_exists w1 (out_name_of f)) files)"
    by blast
  show ?case
  proof (cases "os_path_exists w (out_name_of f)")
    case True
    with step have "w1 = w" by (simp add: compress_file_def)
    with e2 True show ?thesis by simp
  next
    case False
    from compress_file_effect [OF frame step False] obtain evs1 where
      e1: "trace w1 = trace w @ evs1" "length (filter is_translate evs1) = 1" and
      same: "\<And>f'. out_name_of f' \<noteq> out_name_of f \<Longrightarrow>
               os_path_exists w1 (out_name_of f') = os_path_exists w (out_name_of f')"
      by blast
    have "filter (\<lambda>f. \<not> os_path_exists w1 (out_name_of f)) files =
          filter (\<lambda>f. \<not> os_path_exists w (out_name_of f)) files"
      by (rule filter_cong) (simp_all add: same fresh)
    with e1 e2 False have
      "trace w' = trace w @ (evs1 @ evs2) \<and>
       length (filter is_translate (evs1 @ evs2)) =
       length (filter (\<lambda>f. \<not> os_path_exists w (out_name_of f)) (f # files))"
      by simp
    then show ?thesis by blast
  qed
qed

lemma returns_eq: "returns r \<Longrightarrow> r = Returned (fst (state_of r), snd (state_of r))"
  by (cases r) simp_all

text \<open>
  C5, as the code has it. Let the library's translate operation change no path but its
  destination, let the derived output names of the \<open>N\<close> input files be pairwise
  distinct, and let the run of \<open>batch_compress_and_tile\<close> return. Then the output
  directory resolves, and the run makes exactly \<open>N - M\<close> translate calls, where \<open>M\<close>
  counts the files whose derived name exists in that directory before the run.
\<close>

theorem translate_call_count:
  assumes "\<And>w dest src opts q. resolve w dest \<noteq> Inr q \<Longrightarrow>
        map_of (snd (gdal_Translate g w dest src opts)) q = map_of (fs w) q"
    and "distinct (map out_name_of list_of_files)"
    and "batch_compress_and_tile g (self, w) list_of_files out_dir = Returned (self', w')"
  shows "\<exists>d evs. resolve w out_dir = Inr d \<and> trace w' = trace w @ evs \<and>
          length (filter is_translate evs) =
          length list_of_files -
          length (filter (\<lambda>f. os_path_exists (w\<lparr>cwd := d\<rparr>) (out_name_of f)) list_of_files)"
proof -
  from assms(3) obtain w1 where cd: "os_chdir w out_dir = Inr w1"
    and loop: "for_each (compress_file g out_dir) list_of_files (self, w1) = Returned (self', w')"
    by (cases "os_chdir w out_dir") (simp_all add: batch_compress_and_tile_def)
  from chdir_result [OF cd] obtain d where d: "resolve w out_dir = Inr d" and w1: "w1 = w\<lparr>cwd := d\<rparr>"
    by blast
  from compress_loop_count [OF assms(1,2) loop] obtain evs where
    e: "trace w' = trace w1 @ evs"
       "length (filter is_translate evs) =
        length (filter (\<lambda>f. \<not> os_path_exists w1 (out_name_of f)) list_of_files)"
    by blast
  have "length (filter (\<lambda>f. \<not> os_path_exists w1 (out_name_of f)) list_of_files) =
        length list_of_files - length (filter (\<lambda>f. os_path_exists w1 (out_name_of f)) list_of_files)"
    using sum_length_filter_compl [of "\<lambda>f. os_path_exists w1 (out_name_of f)" list_of_files]
    by simp
  with e d have "resolve w out_dir = Inr d \<and> trace w' = trace w @ evs \<and>
          length (filter is_translate evs) =
          length list_of_files -
          length (filter (\<lambda>f. os_path_exists (w\<lparr>cwd := d\<rparr>) (out_name_of f)) list_of_files)"
    by (simp add: w1)
  then show ?thesis by blast
qed

text \<open>Three files, one of them converted before the run, into the output directory
  given as \<open>../out\<close>: two calls.\<close>

theorem translate_call_count_witness:
  "distinct (map out_name_of [''/in/b_bcalb.asc'', ''/in/a_utm10.dem'', ''/in/c_badtoken.tif''])
   \<and> batch_compress_and_tile (stub_gdal [''/in/b_bcalb.asc''])
        (cog_init, demo_world\<lparr>fs := fs demo_world @ [(''/out/a_utm10.tif'', File ''old'')]\<rparr>)
        [''/in/b_bcalb.asc'', ''/in/a_utm10.dem'', ''/in/c_badtoken.tif''] ''../out''
      = Returned
         (fst (state_of (batch_compress_and_tile (stub_gdal [''/in/b_bcalb.asc''])
            (cog_init, demo_world\<lparr>fs := fs demo_world @ [(''/out/a_utm10.tif'', File ''old'')]\<rparr>)
            [''/in/b_bcalb.asc'', ''/in/a_utm10.dem'', ''/in/c_badtoken.tif''] ''../out'')),
          snd (state_of (batch_compress_and_tile (stub_gdal [''/in/b_bcalb.asc''])
            (cog_init, demo_world\<lparr>fs := fs demo_world @ [(''/out/a_utm10.tif'', File ''old'')]\<rparr>)
            [''/in/b_bcalb.asc'', ''/in/a_utm10.dem'', ''/in/c_badtoken.tif''] ''../out'')))
   \<and> (\<exists>d evs. resolve (demo_world\<lparr>fs := fs demo_world @ [(''/out/a_utm10.tif'', File ''old'')]\<rparr>) ''../out''
          = Inr d
        \<and> trace (snd (state_of (batch_compress_and_tile (stub_gdal [''/in/b_bcalb.asc''])
            (cog_init, demo_world\<lparr>fs := fs demo_world @ [(''/out/a_utm10.tif'', File ''old'')]\<rparr>)
            [''/in/b_bcalb.asc'', ''/in/a_utm10.dem'', ''/in/c_badtoken.tif''] ''../out'')))
          = trace (demo_world\<lparr>fs := fs demo_world @ [(''/out/a_utm10.tif'', File ''old'')]\<rparr>) @ evs
        \<and> length (filter is_translate evs) =
          length [''/in/b_bcalb.asc'', ''/in/a_utm10.dem'', ''/in/c_badtoken.tif''] -
          length (filter (\<lambda>f. os_path_exists
                      (demo_world\<lparr>fs := fs demo_world @ [(''/out/a_utm10.tif'', File ''old'')], cwd := d\<rparr>)
                      (out_name_of f))
                    [''/in/b_bcalb.asc'', ''/in/a_utm10.dem'', ''/in/c_badtoken.tif'']))
   \<and> resolve (demo_world\<lparr>fs := fs demo_world @ [(''/out/a_utm10.tif'', File ''old'')]\<rparr>) ''../out''
        = Inr ''/out''
   \<and> length [''/in/b_bcalb.asc'', ''/in/a_utm10.dem'', ''/in/c_badtoken.tif''] -
          length (filter (\<lambda>f. os_path_exists
                      (demo_world\<lparr>fs := fs demo_world @ [(''/out/a_utm10.tif'', File ''old'')],
                                  cwd := ''/out''\<rparr>)
                      (out_name_of f))
                    [''/in/b_bcalb.asc'', ''/in/a_utm10.dem'', ''/in/c_badtoken.tif'']) = 2"
proof -
  let ?w = "demo_world\<lparr>fs := fs demo_world @ [(''/out/a_utm10.tif'', File ''old'')]\<rparr>"
  let ?fl = "[''/in/b_bcalb.asc'', ''/in/a_utm10.dem'', ''/in/c_badtoken.tif'']"
  let ?r = "batch_compress_and_tile (stub_gdal [''/in/b_bcalb.asc'']) (cog_init, ?w) ?fl ''../out''"
  have h1: "distinct (map out_name_of ?fl)" by code_simp
  have "returns ?r" by code_simp
  then have h2: "?r = Returned (fst (state_of ?r), snd (state_of ?r))" by (rule returns_eq)
  have d: "resolve ?w ''../out'' = Inr ''/out''" by code_simp
  have n: "length ?fl -
          length (filter (\<lambda>f. os_path_exists (?w\<lparr>cwd := ''/out''\<rparr>) (out_name_of f)) ?fl) = 2"
    by code_simp
  have c: "\<exists>d evs. resolve ?w ''../out'' = Inr d \<and> trace (snd (state_of ?r)) = trace ?w @ evs
        \<and> length (filter is_translate evs) =
          length ?fl -
          length (filter (\<lambda>f. os_path_exists (?w\<lparr>cwd := d\<rparr>) (out_name_of f)) ?fl)"
  proof (rule translate_call_count)
    show "\<And>w dest src opts q. resolve w dest \<noteq> Inr q \<Longrightarrow>
        map_of (snd (gdal_Translate (stub_gdal [''/in/b_bcalb.asc'']) w dest src opts)) q = map_of (fs w) q"
      by (rule stub_frame)
    show "distinct (map out_name_of ?fl)" by (rule h1)
    show "?r = Returned (fst (state_of ?r), snd (state_of ?r))" by (rule h2)
  qed
  show ?thesis
    using h1 h2 c d n by (intro conjI)
qed

text \<open>C5 as stated fails. With nothing converted before the run, two files call for
  two translate calls: the first run below makes none, because the token \<open>utm12\<close> of
  its first file raises \<open>KeyError\<close> outside the \<open>try\<close> and ends the batch; the second
  makes one, because both files derive the name \<open>a.tif\<close> and the second finds the
  output of the first.\<close>

theorem translate_call_count_counterexample:
  "length (filter is_translate (trace (snd (state_of
      (batch_compress_and_tile (stub_gdal []) (cog_init, demo_world)
         [''/in/a_utm12.dem'', ''/in/b_utm10.dem''] ''/out''))))) = 0
   \<and> trace demo_world = []
   \<and> length [''/in/a_utm12.dem'', ''/in/b_utm10.dem''] -
       length (filter (\<lambda>f. os_path_exists (demo_world\<lparr>cwd := ''/out''\<rparr>) (out_name_of f))
                 [''/in/a_utm12.dem'', ''/in/b_utm10.dem'']) = 2
   \<and> length (filter is_translate (trace (snd (state_of
      (batch_compress_and_tile (stub_gdal []) (cog_init, demo_world)
         [''/in/a.asc'', ''/in/a.dem''] ''/out''))))) = 1
   \<and> length [''/in/a.asc'', ''/in/a.dem''] -
       length (filter (\<lambda>f. os_path_exists (demo_world\<lparr>cwd := ''/out''\<rparr>) (out_name_of f))
                 [''/in/a.asc'', ''/in/a.dem'']) = 2"
  by code_simp

section \<open>Building the translate options\<close>

lemma str_int_75: "str_int 75 = ''75''"
  by code_simp

lemma cto_state:
  "snd (create_translate_options self) =
     (if compress_method self = ''JPEG''
      then self\<lparr>compress_method := ''JPEG -co JPEG_QUALITY=75''\<rparr> else self)"
  by (simp add: create_translate_options_def set_jpeg_quality_def str_int_75 Let_def)

lemma cto_not_jpeg: "compress_method (snd (create_translate_options self)) \<noteq> ''JPEG''"
  by (simp add: cto_state)

lemma cto_idem:
  "snd (create_translate_options (snd (create_translate_options self))) =
   snd (create_translate_options self)"
  using cto_not_jpeg [of self] by (simp add: cto_state [of "snd (create_translate_options self)"])

lemma cto_funpow:
  "((\<lambda>s. snd (create_translate_options s)) ^^ Suc n) self = snd (create_translate_options self)"
  by (induction n) (simp_all add: cto_idem)

lemma epsg_loop_only_epsg:
  "epsg_loop self ts = Inr self1 \<Longrightarrow> self1 = self\<lparr>epsg := epsg self1\<rparr>"
  by (induction ts) (auto split: if_splits option.splits)

lemma compress_file_config:
  assumes "state_of (compress_file g out_dir f (s, w)) = (s', w')"
  shows "s' = s\<lparr>epsg := epsg s'\<rparr> \<or>
         (compress_method s = ''JPEG'' \<and>
          s' = s\<lparr>epsg := epsg s', compress_method := ''JPEG -co JPEG_QUALITY=75''\<rparr>)"
proof (cases "os_path_exists w (out_name_of f)")
  case True
  with assms show ?thesis by (simp add: compress_file_def)
next
  case False
  show ?thesis
  proof (cases "epsg_from_filename s f")
    case (Inl err)
    with False assms show ?thesis by (simp add: compress_file_def)
  next
    case (Inr s1)
    then have "s1 = s\<lparr>epsg := epsg s1\<rparr>"
      by (simp add: epsg_from_filename_def epsg_loop_only_epsg)
    then obtain e1 where s1: "s1 = s\<lparr>epsg := e1\<rparr>" by blast
    from False Inr assms have "s' = snd (create_translate_options s1)"
      by (auto simp: compress_file_def Let_def split: prod.splits option.splits sum.splits)
    then show ?thesis
      by (simp add: cto_state s1)
  qed
qed

lemma converter_config:
  "fst (state_of (batch_compress_and_tile g (self, w) list_of_files out_dir))
     = self\<lparr>epsg := epsg (fst (state_of (batch_compress_and_tile g (self, w) list_of_files out_dir)))\<rparr>
   \<or> (compress_method self = ''JPEG'' \<and>
       fst (state_of (batch_compress_and_tile g (self, w) list_of_files out_dir))
         = self\<lparr>epsg := epsg (fst (state_of (batch_compress_and_tile g (self, w) list_of_files out_dir))),
                 compress_method := ''JPEG -co JPEG_QUALITY=75''\<rparr>)"
proof (cases "os_chdir w out_dir")
  case (Inl err)
  then show ?thesis by (simp add: batch_compress_and_tile_def)
next
  case (Inr w1)
  let ?J = "\<lambda>st :: cog \<times> world. fst st = self\<lparr>epsg := epsg (fst st)\<rparr> \<or>
      (compress_method self = ''JPEG'' \<and>
       fst st = self\<lparr>epsg := epsg (fst st), compress_method := ''JPEG -co JPEG_QUALITY=75''\<rparr>)"
  have "?J (state_of (for_each (compress_file g out_dir) list_of_files (self, w1)))"
  proof (rule for_each_invariant [where I = ?J])
    show "?J (self, w1)" by simp
  next
    fix x st
    assume J: "?J st"
    obtain s sw where st: "st = (s, sw)" by (cases st)
    obtain s' sw' where st': "state_of (compress_file g out_dir x st) = (s', sw')"
      by (cases "state_of (compress_file g out_dir x st)")
    from compress_file_config [OF st' [unfolded st]] have
      c: "s' = s\<lparr>epsg := epsg s'\<rparr> \<or>
         (compress_method s = ''JPEG'' \<and>
          s' = s\<lparr>epsg := epsg s', compress_method := ''JPEG -co JPEG_QUALITY=75''\<rparr>)" .
    from J st have j: "s = self\<lparr>epsg := epsg s\<rparr> \<or>
      (compress_method self = ''JPEG'' \<and>
       s = self\<lparr>epsg := epsg s, compress_method := ''JPEG -co JPEG_QUALITY=75''\<rparr>)" by simp
    have "s' = self\<lparr>epsg := epsg s'\<rparr> \<or>
      (compress_method self = ''JPEG'' \<and>
       s' = self\<lparr>epsg := epsg s', compress_method := ''JPEG -co JPEG_QUALITY=75''\<rparr>)"
    proof -
      obtain e where "s = self\<lparr>epsg := e\<rparr> \<or>
        (compress_method self = ''JPEG'' \<and>
         s = self\<lparr>epsg := e, compress_method := ''JPEG -co JPEG_QUALITY=75''\<rparr>)"
        using j by blast
      moreover obtain e' where "s' = s\<lparr>epsg := e'\<rparr> \<or>
         (compress_method s = ''JPEG'' \<and>
          s' = s\<lparr>epsg := e', compress_method := ''JPEG -co JPEG_QUALITY=75''\<rparr>)"
        using c by blast
      ultimately show ?thesis by auto
    qed
    with st' show "?J (state_of (compress_file g out_dir x st))" by simp
  qed
  with Inr show ?thesis by (simp add: batch_compress_and_tile_def)
qed

text \<open>
  C8. \<open>create_translate_options\<close> takes the object only, never the world: its result
  is a function of the settings. It leaves the object as it is unless the compression
  method is \<open>JPEG\<close>, and then only appends the quality parameter to the method. After
  one call the method is no longer \<open>JPEG\<close>, so any number of further calls leaves the
  object as the first call left it. Over a whole run of \<open>batch_compress_and_tile\<close>,
  however it ends, the object differs from the one the run started with at most in the
  spatial reference and in that one append.
\<close>

theorem create_translate_options_appends_once:
  "snd (create_translate_options self) =
     (if compress_method self = ''JPEG''
      then self\<lparr>compress_method := ''JPEG -co JPEG_QUALITY=75''\<rparr> else self)
   \<and> compress_method (snd (create_translate_options self)) \<noteq> ''JPEG''
   \<and> ((\<lambda>s. snd (create_translate_options s)) ^^ Suc k) self = snd (create_translate_options self)
   \<and> (fst (state_of (batch_compress_and_tile g (self, w) list_of_files out_dir))
         = self\<lparr>epsg := epsg (fst (state_of (batch_compress_and_tile g (self, w) list_of_files out_dir)))\<rparr>
       \<or> (compress_method self = ''JPEG'' \<and>
           fst (state_of (batch_compress_and_tile g (self, w) list_of_files out_dir))
             = self\<lparr>epsg := epsg (fst (state_of (batch_compress_and_tile g (self, w) list_of_files out_dir))),
                     compress_method := ''JPEG -co JPEG_QUALITY=75''\<rparr>))"
  using cto_state [of self] cto_not_jpeg [of self] cto_funpow [of k self]
    converter_config [of g self w list_of_files out_dir]
  by (intro conjI)

text \<open>The theorem on an object whose method is \<open>JPEG\<close>: one call and three calls.\<close>

theorem create_translate_options_appends_once_witness:
  "snd (create_translate_options (cog_init\<lparr>compress_method := ''JPEG''\<rparr>))
     = cog_init\<lparr>compress_method := ''JPEG -co JPEG_QUALITY=75''\<rparr>
   \<and> ((\<lambda>s. snd (create_translate_options s)) ^^ 3) (cog_init\<lparr>compress_method := ''JPEG''\<rparr>)
     = cog_init\<lparr>compress_method := ''JPEG -co JPEG_QUALITY=75''\<rparr>"
proof -
  note t = create_translate_options_appends_once
    [of "cog_init\<lparr>compress_method := ''JPEG''\<rparr>" 2 "stub_gdal []" demo_world "[]" "''/out''"]
  have a: "snd (create_translate_options (cog_init\<lparr>compress_method := ''JPEG''\<rparr>))
     = cog_init\<lparr>compress_method := ''JPEG -co JPEG_QUALITY=75''\<rparr>"
    using t [THEN conjunct1] by simp
  have three: "(3::nat) = Suc 2" by simp
  have b: "((\<lambda>s. snd (create_translate_options s)) ^^ 3) (cog_init\<lparr>compress_method := ''JPEG''\<rparr>)
     = snd (create_translate_options (cog_init\<lparr>compress_method := ''JPEG''\<rparr>))"
    unfolding three by (rule t [THEN conjunct2, THEN conjunct2, THEN conjunct1])
  show ?thesis using a b by simp
qed

text \<open>In particular the converter leaves the overview levels as \<open>__init__\<close> set them,
  so that the overview builder of the driver runs with the factors 2 and 4.\<close>

lemma converter_keeps_overview_levels:
  "overview_levels (fst (state_of (batch_compress_and_tile g (self, w) list_of_files out_dir)))
     = overview_levels self"
proof -
  let ?s = "fst (state_of (batch_compress_and_tile g (self, w) list_of_files out_dir))"
  obtain e where "?s = self\<lparr>epsg := e\<rparr> \<or>
      ?s = self\<lparr>epsg := e, compress_method := ''JPEG -co JPEG_QUALITY=75''\<rparr>"
    using converter_config [of g self w list_of_files out_dir] by blast
  then show ?thesis by auto
qed

section \<open>The corrupt-JPEG scanner\<close>

lemma scan_open_failure:
  "gdal_Open g w file = Some e \<Longrightarrow>
   check_corrupt_jpg g (file # rest) w = Raised (NameError ''e'') (w\<lparr>trace := trace w @ [Open_call file]\<rparr>)"
  by (simp add: check_corrupt_jpg_def scan_file_def try_open_and_report_def eval_except_clause_def
      module_names_def Let_def)

text \<open>
  C9 says that a file the scanner fails to open is caught, written as a row of the CSV
  log, and that the scan goes on. The code does not do so: on the run below, where the
  library rejects \<open>bad.jpg\<close>, matching the handler raises \<open>NameError\<close> for the unbound
  name \<open>e\<close>; the script ends there, no row is written, no \<open>image_errors.csv\<close> exists,
  and \<open>good.jpg\<close> is never opened.
\<close>

theorem corrupt_jpg_scan_stops_unlogged:
  "check_corrupt_jpg (stub_gdal [''bad.jpg'']) [''bad.jpg'', ''good.jpg'']
     \<lparr>cwd = ''/photos'',
      fs = [(''/photos'', Dir), (''/photos/bad.jpg'', File ''x''), (''/photos/good.jpg'', File ''y'')],
      trace = []\<rparr>
   = Raised (NameError ''e'')
     \<lparr>cwd = ''/photos'',
      fs = [(''/photos'', Dir), (''/photos/bad.jpg'', File ''x''), (''/photos/good.jpg'', File ''y'')],
      trace = [Open_call ''bad.jpg'']\<rparr>"
  by code_simp

section \<open>The driver\<close>

text \<open>
  C6 says that the overview builder receives and iterates the rasters the convert stage
  produced. The code does not do so: the driver passes the output directory string, and
  the loop iterates its characters. On the run below the convert stage writes the three
  rasters, the overview stage asks the library to open \<open>/\<close>, the first character of
  \<open>/out\<close>, and the failure ends the run: apart from the translate calls of the convert
  stage, the only event is that one open call, no overview is requested for any raster
  and no \<open>COG\<close> directory is made.
\<close>

theorem driver_overviews_iterate_characters:
  "(case run_cog_conversion (stub_gdal []) (cog_init, demo_world) ''/in'' ''/out'' of
      Returned st \<Rightarrow> False
    | Raised err st \<Rightarrow>
        err = LibraryError ''not recognized as a supported file format'' \<and>
        filter (\<lambda>ev. \<not> is_translate ev) (trace (snd st)) = [Open_call ''/''] \<and>
        map_of (fs (snd st)) ''/out/a_utm10.tif'' = Some (File ''GTiff of /in/a_utm10.dem'') \<and>
        map_of (fs (snd st)) ''/out/COG'' = None)"
  by code_simp

end
